theory Spec2Isabelle
  imports Main "HOL-Library.Sublist"
begin

section \<open>JavaScript strings, exceptions and JSON values\<close>

text \<open>
  Strings are byte lists; a character of the source outside ASCII is written as its UTF-8 bytes.
  A value caught by a \<^verbatim>\<open>catch\<close> clause is either an instance of \<^verbatim>\<open>Error\<close>
  (this includes the engine's own TypeError and SyntaxError) carrying its message, or some
  other value.  The text of an engine-raised TypeError is the one V8 prints.
  Calls of \<^verbatim>\<open>console.error\<close> have no effect on results and are left out.
  The frame count is an integer, as the slider of the form supplies it, and so are the numbers
  of a parsed JSON value: the only numbers the code reads are lengths.
\<close>

datatype thrown = Error (message: string) | NonError

fun digits :: "nat \<Rightarrow> string" where
  "digits n = (if n < 10 then [''0123456789'' ! n] else digits (n div 10) @ [''0123456789'' ! (n mod 10)])"

declare digits.simps [simp del]

definition Number_toString :: "int \<Rightarrow> string" where
  \<comment> \<open>the decimal text a template literal gives an integral number\<close>
  "Number_toString n = (if n < 0 then ''-'' @ digits (nat (- n)) else digits (nat n))"

fun str_includes :: "string \<Rightarrow> string \<Rightarrow> bool" where
  \<comment> \<open>\<^verbatim>\<open>s.includes(sub)\<close>\<close>
  "str_includes [] sub = (sub = [])"
| "str_includes (c # cs) sub = (prefix sub (c # cs) \<or> str_includes cs sub)"

fun split_on :: "char \<Rightarrow> string \<Rightarrow> string list" where
  \<comment> \<open>\<^verbatim>\<open>s.split(sep)\<close> for a one-character separator\<close>
  "split_on sep [] = [[]]"
| "split_on sep (c # cs) =
     (if c = sep then [] # split_on sep cs
      else (case split_on sep cs of [] \<Rightarrow> [[c]] | piece # pieces \<Rightarrow> (c # piece) # pieces))"

definition is_space :: "char \<Rightarrow> bool" where
  \<comment> \<open>the ASCII white space and line terminators that \<^verbatim>\<open>trim\<close> removes\<close>
  "is_space c = (c \<in> set [CHR 0x09, CHR 0x0A, CHR 0x0B, CHR 0x0C, CHR 0x0D, CHR 0x20])"

definition trim :: "string \<Rightarrow> string" where
  "trim s = rev (dropWhile is_space (rev (dropWhile is_space s)))"

datatype json =
    JNull
  | JBool bool
  | JNumber int
  | JString string
  | JArray "json list"
  | JObject "(string \<times> json) list"

fun truthy :: "json \<Rightarrow> bool" where
  "truthy JNull = False"
| "truthy (JBool b) = b"
| "truthy (JNumber n) = (n \<noteq> 0)"
| "truthy (JString s) = (s \<noteq> [])"
| "truthy (JArray xs) = True"
| "truthy (JObject kvs) = True"

fun join_comma :: "string list \<Rightarrow> string" where
  "join_comma [] = []"
| "join_comma [x] = x"
| "join_comma (x # y # ys) = x @ '','' @ join_comma (y # ys)"

fun String_of :: "json \<Rightarrow> string" where
  \<comment> \<open>the text a template literal gives a value\<close>
  "String_of JNull = ''null''"
| "String_of (JBool b) = (if b then ''true'' else ''false'')"
| "String_of (JNumber n) = Number_toString n"
| "String_of (JString s) = s"
| "String_of (JArray xs) = join_comma (map (\<lambda>x. if x = JNull then [] else String_of x) xs)"
| "String_of (JObject kvs) = ''[object Object]''"

definition TypeError_reading :: "string \<Rightarrow> string \<Rightarrow> thrown" where
  \<open>TypeError_reading what key =
     Error (''Cannot read properties of '' @ what @ '' (reading '' @ [CHR 0x27] @ key @ [CHR 0x27] @ '')'')\<close>

fun get_property :: "json option \<Rightarrow> string \<Rightarrow> thrown + json option" where
  \<comment> \<open>\<^verbatim>\<open>v.key\<close> for the keys read in the source
      (\<^verbatim>\<open>storyboard\<close>, \<^verbatim>\<open>frame_description\<close>, \<^verbatim>\<open>length\<close>);
      \<open>None\<close> is \<^verbatim>\<open>undefined\<close>\<close>
  "get_property None key = Inl (TypeError_reading ''undefined'' key)"
| "get_property (Some JNull) key = Inl (TypeError_reading ''null'' key)"
| "get_property (Some (JObject kvs)) key = Inr (map_of kvs key)"
| "get_property (Some (JString s)) key =
     Inr (if key = ''length'' then Some (JNumber (int (length s))) else None)"
| "get_property (Some (JArray xs)) key =
     Inr (if key = ''length'' then Some (JNumber (int (length xs))) else None)"
| "get_property (Some v) key = Inr None"

section \<open>The generative-AI client and the remote service\<close>

datatype GoogleGenAI = GoogleGenAI (apiKey: string)

record Blob =
  data :: string
  mimeType :: string

record Part =
  inlineData :: "Blob option"
  text_of :: "string option"

datatype contents = Prompt string | Parts "Part list"

datatype config =
    ResponseModalities_IMAGE
  | ResponseSchema_storyboard string

record request =
  model :: string
  contents :: contents
  config :: config

record Content =
  parts :: "Part list"

record Candidate =
  content :: Content

record response =
  candidates :: "Candidate list"
  response_text :: "string option"

text \<open>
  The host of a run: the remote endpoint behind \<^verbatim>\<open>ai.models.generateContent\<close>, which
  answers a request from the state of the outside world and may change it, and the engine's
  \<^verbatim>\<open>JSON.parse\<close>.  A call either rejects with a thrown value or resolves with a response.
\<close>

record 'w host =
  models_generateContent :: "GoogleGenAI \<Rightarrow> request \<Rightarrow> 'w \<Rightarrow> (thrown + response) \<times> 'w"
  JSON_parse :: "string \<Rightarrow> thrown + json"

text \<open>
  The module state: the lazily created client, the environment variable it is created from,
  the outside world, and the exchanges with the remote service so far, oldest first.
\<close>

record 'w runtime =
  aiInstance :: "GoogleGenAI option"
  API_KEY :: "string option"
  world :: 'w
  trace :: "(request \<times> (thrown + response)) list"

definition getAI :: "'w runtime \<Rightarrow> (thrown + GoogleGenAI) \<times> 'w runtime" where
  "getAI s =
     (case aiInstance s of
        Some ai \<Rightarrow> (Inr ai, s)
      | None \<Rightarrow>
          (case API_KEY s of
             None \<Rightarrow> (Inl (Error ''API key is not configured. Please set the API_KEY environment variable.''), s)
           | Some k \<Rightarrow>
               if k = [] then (Inl (Error ''API key is not configured. Please set the API_KEY environment variable.''), s)
               else (Inr (GoogleGenAI k), s\<lparr>aiInstance := Some (GoogleGenAI k)\<rparr>)))"

definition generateContent ::
  "'w host \<Rightarrow> GoogleGenAI \<Rightarrow> request \<Rightarrow> 'w runtime \<Rightarrow> (thrown + response) \<times> 'w runtime" where
  "generateContent h ai req s =
     (case models_generateContent h ai req (world s) of
        (reply, w) \<Rightarrow> (reply, s\<lparr>world := w, trace := trace s @ [(req, reply)]\<rparr>))"

definition report :: "(string \<Rightarrow> 'w \<Rightarrow> 'w) option \<Rightarrow> string \<Rightarrow> 'w runtime \<Rightarrow> 'w runtime" where
  \<comment> \<open>\<^verbatim>\<open>onProgress?.(msg)\<close>: the callback, when given, acts on the outside world\<close>
  "report onProgress msg s =
     (case onProgress of None \<Rightarrow> s | Some f \<Rightarrow> s\<lparr>world := f msg (world s)\<rparr>)"

section \<open>base64ToPart and generateFrame\<close>

definition is_line_terminator :: "char \<Rightarrow> bool" where
  \<comment> \<open>the ASCII characters that the dot of a regular expression does not match\<close>
  "is_line_terminator c = (c = CHR 0x0A \<or> c = CHR 0x0D)"

fun until_semicolon :: "string \<Rightarrow> string option" where
  \<comment> \<open>\<^verbatim>\<open>(.*?);\<close> from here: the characters before the first semicolon, none a line terminator\<close>
  "until_semicolon [] = None"
| "until_semicolon (c # cs) =
     (if c = CHR '';'' then Some []
      else if is_line_terminator c then None
      else map_option ((#) c) (until_semicolon cs))"

fun match_mime :: "string \<Rightarrow> string option" where
  \<comment> \<open>group 1 of the leftmost match of \<^verbatim>\<open>/:(.*?);/\<close>\<close>
  "match_mime [] = None"
| "match_mime (c # cs) =
     (if c = CHR '':'' then
        (case until_semicolon cs of Some g \<Rightarrow> Some g | None \<Rightarrow> match_mime cs)
      else match_mime cs)"

definition base64ToPart :: "string \<Rightarrow> thrown + Part" where
  "base64ToPart base64Data =
     (case split_on CHR '','' base64Data of
        header # payload # rest \<Rightarrow>
          if header = [] \<or> payload = [] then Inl (Error ''Invalid base64 data URL format.'')
          else
            let mime = (case match_mime header of
                          Some g \<Rightarrow> if g = [] then ''image/png'' else g
                        | None \<Rightarrow> ''image/png'')
            in Inr \<lparr>inlineData = Some \<lparr>data = payload, mimeType = mime\<rparr>, text_of = None\<rparr>
      | _ \<Rightarrow> Inl (Error ''Invalid base64 data URL format.''))"

definition referenceParts :: "string option \<Rightarrow> thrown + Part list" where
  \<comment> \<open>\<^verbatim>\<open>if (referenceFrameB64) parts.push(base64ToPart(referenceFrameB64))\<close>\<close>
  "referenceParts referenceFrameB64 =
     (case referenceFrameB64 of
        None \<Rightarrow> Inr []
      | Some r \<Rightarrow>
          if r = [] then Inr []
          else (case base64ToPart r of Inl e \<Rightarrow> Inl e | Inr p \<Rightarrow> Inr [p]))"

definition frameRequest :: "Part list \<Rightarrow> string \<Rightarrow> request" where
  "frameRequest ps prompt =
     \<lparr>model = ''gemini-2.5-flash-image'',
      contents = Parts (ps @ [\<lparr>inlineData = None, text_of = Some prompt\<rparr>]),
      config = ResponseModalities_IMAGE\<rparr>"

fun firstInlineData :: "Part list \<Rightarrow> Blob option" where
  "firstInlineData [] = None"
| "firstInlineData (part # rest) =
     (case inlineData part of Some b \<Rightarrow> Some b | None \<Rightarrow> firstInlineData rest)"

definition extractFrame :: "string \<Rightarrow> response \<Rightarrow> thrown + string" where
  \<comment> \<open>the loop over \<^verbatim>\<open>response.candidates[0].content.parts\<close> and the throw after it\<close>
  \<open>extractFrame prompt resp =
     (case candidates resp of
        [] \<Rightarrow> Inl (TypeError_reading ''undefined'' ''content'')
      | candidate # others \<Rightarrow>
          (case firstInlineData (parts (content candidate)) of
             Some b \<Rightarrow> Inr (''data:image/png;base64,'' @ data b)
           | None \<Rightarrow> Inl (Error (''Image generation failed for prompt: "'' @ prompt @ ''"''))))\<close>

definition generateFrame ::
  "'w host \<Rightarrow> GoogleGenAI \<Rightarrow> string \<Rightarrow> string option \<Rightarrow> 'w runtime \<Rightarrow> (thrown + string) \<times> 'w runtime" where
  "generateFrame h ai prompt referenceFrameB64 s =
     (case referenceParts referenceFrameB64 of
        Inl e \<Rightarrow> (Inl e, s)
      | Inr ps \<Rightarrow>
          (case generateContent h ai (frameRequest ps prompt) s of
             (Inl e, s') \<Rightarrow> (Inl e, s')
           | (Inr resp, s') \<Rightarrow> (extractFrame prompt resp, s')))"

definition styleInstruction :: string where
  \<open>styleInstruction = ''Style: A raw, sketchy anime keyframe (genga). Emphasize dynamic, messy pencil lines and visible construction lines, capturing an energetic, in-progress feel. Plain white background.''\<close>


section \<open>The storyboard planner (services/imageService.ts)\<close>

definition storyboardContents :: "string \<Rightarrow> int \<Rightarrow> string" where
  \<open>storyboardContents motionPrompt frameCount =
     ''You are an expert animator, physicist, and kinesiologist. Your task is to perform a deep analysis of a motion concept and break it down into a series of distinct keyframes for a ''
       @ Number_toString frameCount
       @ ''-frame animation. You will generate a detailed, frame-by-frame script. For each frame, you must provide both technical notes analyzing the motion and a descriptive prompt for an AI image generator.\<newline>\<newline>**DEEP ANALYSIS RULES:**\<newline>1.  **Establish a 3D Scene:** Imagine the scene in three dimensions. Define the subject's initial position and the camera's viewpoint.\<newline>2.  **Deconstruct the Motion:**\<newline>    *   **Primary Motion:** Identify the main arc of movement (e.g., the path of a sword swing).\<newline>    *   **Secondary Motion:** Analyze overlapping actions and follow-through (e.g., the rotation of the torso, the shift in body weight).\<newline>    *   **Physics & Kinesiology:** Consider gravity, momentum, inertia, and realistic body mechanics. How does the body shift to maintain balance? What muscles are engaged?\<newline>3.  **Frame-by-Frame Breakdown:** For each frame, provide:\<newline>    *   **Technical Notes:** A bullet-point list of the precise changes from the *previous* frame. Use quantitative data: angles in degrees, positions on an imaginary X/Y/Z grid, and percentages of completion for the overall motion. Describe the physics at play. This is your private "animator's notes".\<newline>    *   **Frame Description:** A vivid, descriptive prompt for the AI image generator. This description should be the culmination of your technical analysis, translated into artistic language. It must clearly state the subject's pose and the state of the action.\<newline>\<newline>**OUTPUT FORMAT:**\<newline>You must provide a JSON object with a single key "storyboard". The value of "storyboard" must be an array of objects, with each object representing one frame. The array must contain exactly ''
       @ Number_toString frameCount
       @ '' elements. Each object must have two keys: 'technical_notes' and 'frame_description'.\<newline>\<newline>**Motion Concept:** "''
       @ motionPrompt
       @ ''"''\<close>

definition storyboardRequest :: "string \<Rightarrow> int \<Rightarrow> request" where
  "storyboardRequest motionPrompt frameCount =
     \<lparr>model = ''gemini-2.5-pro'',
      contents = Prompt (storyboardContents motionPrompt frameCount),
      config = ResponseSchema_storyboard
        (''An array of exactly '' @ Number_toString frameCount
           @ '' objects, where each object represents one frame.'')\<rparr>"

definition wrongFrames :: "int \<Rightarrow> json option \<Rightarrow> thrown" where
  \<comment> \<open>what the \<^verbatim>\<open>throw\<close> of the shape check raises; building its message reads
      \<^verbatim>\<open>storyboardFrames.length\<close>, which itself throws on \<^verbatim>\<open>undefined\<close> and \<^verbatim>\<open>null\<close>\<close>
  "wrongFrames frameCount storyboardFrames =
     (case get_property storyboardFrames ''length'' of
        Inl e \<Rightarrow> e
      | Inr len \<Rightarrow>
          Error (''Storyboard generation failed: AI returned an invalid format or wrong number of frames. Expected ''
                 @ Number_toString frameCount @ '', got ''
                 @ (case len of
                      None \<Rightarrow> ''none''
                    | Some v \<Rightarrow> if truthy v then String_of v else ''none'')
                 @ ''.''))"

definition frameDescription :: "json \<Rightarrow> thrown + string" where
  \<comment> \<open>the callback of \<^verbatim>\<open>storyboardFrames.map\<close>\<close>
  "frameDescription frame =
     (case get_property (Some frame) ''frame_description'' of
        Inl e \<Rightarrow> Inl e
      | Inr (Some (JString d)) \<Rightarrow>
          if d = [] then Inl (Error ''Storyboard generation failed: A frame description was missing or not a string.'')
          else Inr d
      | Inr _ \<Rightarrow> Inl (Error ''Storyboard generation failed: A frame description was missing or not a string.''))"

fun frameDescriptions :: "json list \<Rightarrow> thrown + string list" where
  "frameDescriptions [] = Inr []"
| "frameDescriptions (frame # rest) =
     (case frameDescription frame of
        Inl e \<Rightarrow> Inl e
      | Inr d \<Rightarrow> (case frameDescriptions rest of Inl e \<Rightarrow> Inl e | Inr ds \<Rightarrow> Inr (d # ds)))"

definition readStoryboard :: "'w host \<Rightarrow> int \<Rightarrow> response \<Rightarrow> thrown + string list" where
  \<comment> \<open>the \<^verbatim>\<open>try\<close> block after the remote call has resolved\<close>
  "readStoryboard h frameCount resp =
     (case response_text resp of
        None \<Rightarrow> Inl (TypeError_reading ''undefined'' ''trim'')
      | Some t \<Rightarrow>
          (case JSON_parse h (trim t) of
             Inl e \<Rightarrow> Inl e
           | Inr parsedJson \<Rightarrow>
               (case get_property (Some parsedJson) ''storyboard'' of
                  Inl e \<Rightarrow> Inl e
                | Inr storyboardFrames \<Rightarrow>
                    (case storyboardFrames of
                       Some (JArray frames) \<Rightarrow>
                         if int (length frames) \<noteq> frameCount
                         then Inl (wrongFrames frameCount storyboardFrames)
                         else frameDescriptions frames
                     | _ \<Rightarrow> Inl (wrongFrames frameCount storyboardFrames)))))"

definition storyboardCatch :: "thrown \<Rightarrow> thrown" where
  \<comment> \<open>the \<^verbatim>\<open>catch\<close> clause of generateStoryboard: every caught value is replaced\<close>
  "storyboardCatch error =
     (case error of
        Error m \<Rightarrow>
          if str_includes m ''JSON.parse''
          then Error ''Failed to generate animation storyboard. The planning AI returned an invalid JSON format.''
          else Error ''Failed to generate animation storyboard. The planning AI may be experiencing issues.''
      | NonError \<Rightarrow> Error ''Failed to generate animation storyboard. The planning AI may be experiencing issues.'')"

definition generateStoryboard ::
  "'w host \<Rightarrow> GoogleGenAI \<Rightarrow> string \<Rightarrow> int \<Rightarrow> 'w runtime \<Rightarrow> (thrown + string list) \<times> 'w runtime" where
  "generateStoryboard h ai motionPrompt frameCount s =
     (case generateContent h ai (storyboardRequest motionPrompt frameCount) s of
        (Inl e, s') \<Rightarrow> (Inl (storyboardCatch e), s')
      | (Inr resp, s') \<Rightarrow>
          (case readStoryboard h frameCount resp of
             Inl e \<Rightarrow> (Inl (storyboardCatch e), s')
           | Inr descriptions \<Rightarrow> (Inr descriptions, s')))"

section \<open>The orchestrator driven by the storyboard (services/imageService.ts)\<close>

definition animationCatch :: "thrown \<Rightarrow> thrown" where
  \<comment> \<open>the \<^verbatim>\<open>catch\<close> clause of generateAnimationFrames, the same in both files\<close>
  "animationCatch error =
     (case error of
        Error m \<Rightarrow> Error (''Failed to generate animation: '' @ m)
      | NonError \<Rightarrow> Error ''An unknown error occurred while generating the animation.'')"

definition storyboardFramePrompt :: "int \<Rightarrow> string list \<Rightarrow> int \<Rightarrow> string" where
  \<comment> \<open>\<^verbatim>\<open>currentFramePrompt\<close> of loop index \<open>i\<close>; a read of \<^verbatim>\<open>storyboard[i]\<close> out of range
      is \<^verbatim>\<open>undefined\<close>\<close>
  \<open>storyboardFramePrompt frameCount storyboard i =
     (let frameIndex = i + 1;
          storyboardPrompt = (if 0 \<le> i \<and> nat i < length storyboard then storyboard ! nat i else ''undefined'')
      in if i = 0 then
           styleInstruction
             @ '' This is the **first frame** of a ''
             @ Number_toString frameCount
             @ ''-frame animation. The detailed instruction for this frame is: "''
             @ storyboardPrompt
             @ ''".''
         else
           styleInstruction
             @ '' This is frame ''
             @ Number_toString frameIndex
             @ '' of a ''
             @ Number_toString frameCount
             @ ''-frame animation. Using the provided image as the immediate previous frame, generate the very next logical step in the action. The precise instruction for this frame is: "''
             @ storyboardPrompt
             @ ''". Ensure the transition is smooth and physically plausible.'')\<close>

definition generatingMessage :: "int \<Rightarrow> int \<Rightarrow> string" where
  "generatingMessage frameIndex frameCount =
     ''Generating frame '' @ Number_toString frameIndex @ '' of '' @ Number_toString frameCount @ ''...''"

function storyboardLoop ::
  "'w host \<Rightarrow> GoogleGenAI \<Rightarrow> int \<Rightarrow> (string \<Rightarrow> 'w \<Rightarrow> 'w) option \<Rightarrow> string list
     \<Rightarrow> int \<Rightarrow> string option \<Rightarrow> string list \<Rightarrow> 'w runtime \<Rightarrow> (thrown + string list) \<times> 'w runtime" where
  "storyboardLoop h ai frameCount onProgress storyboard i previousFrame allFrames s =
     (if i < frameCount then
        (case generateFrame h ai (storyboardFramePrompt frameCount storyboard i) previousFrame
                (report onProgress (generatingMessage (i + 1) frameCount) s) of
           (Inl e, s') \<Rightarrow> (Inl e, s')
         | (Inr nextFrame, s') \<Rightarrow>
             storyboardLoop h ai frameCount onProgress storyboard (i + 1) (Some nextFrame)
               (allFrames @ [nextFrame]) s')
      else (Inr allFrames, s))"
  by pat_completeness auto
termination
  by (relation "measure (\<lambda>(h, ai, frameCount, onProgress, storyboard, i, previousFrame, allFrames, s).
                  nat (frameCount - i))") auto

declare storyboardLoop.simps [simp del]

definition generateAnimationFrames ::
  "'w host \<Rightarrow> string \<Rightarrow> int \<Rightarrow> (string \<Rightarrow> 'w \<Rightarrow> 'w) option \<Rightarrow> 'w runtime
     \<Rightarrow> (thrown + string list) \<times> 'w runtime" where
  "generateAnimationFrames h motionPrompt frameCount onProgress s =
     (case getAI s of
        (Inl e, s0) \<Rightarrow> (Inl e, s0)
      | (Inr ai, s0) \<Rightarrow>
          if frameCount < 1 then (Inr [], s0)
          else
            (case generateStoryboard h ai motionPrompt frameCount
                    (report onProgress ''Analyzing motion and creating storyboard...'' s0) of
               (Inl e, s1) \<Rightarrow> (Inl (animationCatch e), s1)
             | (Inr storyboard, s1) \<Rightarrow>
                 (case storyboardLoop h ai frameCount onProgress storyboard 0 None []
                         (report onProgress ''Storyboard created. Starting frame generation...'' s1) of
                    (Inl e, s2) \<Rightarrow> (Inl (animationCatch e), s2)
                  | (Inr allFrames, s2) \<Rightarrow>
                      (Inr allFrames, report onProgress ''Generation complete!'' s2))))"

section \<open>The orchestrator with prompts composed per frame (src/unnamed/part_000)\<close>

text \<open>
  The repository holds a second copy of the service whose first 89 lines (getAI, base64ToPart,
  generateFrame) are those of services/imageService.ts and whose generateAnimationFrames plans
  no storyboard: it composes the prompt of each frame from the motion prompt and the index.
  Its loop counts from 1.  The suffix of the name tells the two functions apart.
\<close>

definition inlineFramePrompt :: "string \<Rightarrow> int \<Rightarrow> int \<Rightarrow> string" where
  \<comment> \<open>\<^verbatim>\<open>currentFramePrompt\<close> of loop index \<open>i\<close>, which here counts from 1\<close>
  \<open>inlineFramePrompt motionPrompt frameCount i =
     (if i = 1 then
        styleInstruction
          @ '' This is the **first frame** of a ''
          @ Number_toString frameCount
          @ ''-frame animation. Depict the **absolute beginning** of the motion: "''
          @ motionPrompt
          @ ''". The scene should be static, right before the main action starts.''
      else if i = frameCount \<and> frameCount > 1 then
        styleInstruction
          @ '' This is the **final frame** of a ''
          @ Number_toString frameCount
          @ ''-frame animation of "''
          @ motionPrompt
          @ ''". Using the provided image as the immediate previous frame, create the **absolute conclusion** of the motion. The action should be fully completed and settled.''
      else
        styleInstruction
          @ '' This is frame ''
          @ Number_toString i
          @ '' of a ''
          @ Number_toString frameCount
          @ ''-frame animation of "''
          @ motionPrompt
          @ ''".\<newline>\<newline>**CRITICAL INSTRUCTION FOR AN EXPERT ANIMATOR:** Your task is to generate the very next logical step in the action, using the provided image as the immediate previous frame. The movement MUST be clear, purposeful, and dynamic'' @ [CHR 0xC3, CHR 0xA2] @ [CHR 0xE2, CHR 0x82, CHR 0xAC] @ [CHR 0xE2, CHR 0x80, CHR 0x9D] @ ''avoiding any static or idle appearance.\<newline>\<newline>1.  **Analyze Motion Arc:** Deconstruct the core action: "''
          @ motionPrompt
          @ ''". Consider the physics, momentum, and the primary arc of movement.\<newline>2.  **Calculate Next Pose:** For this specific frame, advance the subject's pose significantly. Think in terms of angles, trigonometry, and kinetics. For instance, if a character is "drawing a sword," calculate the new angle of the elbow, the rotation of the shoulder, and the precise new position of the hand and blade.\<newline>3.  **Generate with Precision:** Create a frame that flawlessly illustrates this calculated next step. The progression from the previous frame must be obvious, smooth, and contribute meaningfully to the overall animation's energy and flow.'')\<close>

function inlineLoop ::
  "'w host \<Rightarrow> GoogleGenAI \<Rightarrow> string \<Rightarrow> int \<Rightarrow> (string \<Rightarrow> 'w \<Rightarrow> 'w) option
     \<Rightarrow> int \<Rightarrow> string option \<Rightarrow> string list \<Rightarrow> 'w runtime \<Rightarrow> (thrown + string list) \<times> 'w runtime" where
  "inlineLoop h ai motionPrompt frameCount onProgress i previousFrame allFrames s =
     (if i \<le> frameCount then
        (case generateFrame h ai (inlineFramePrompt motionPrompt frameCount i) previousFrame
                (report onProgress (generatingMessage i frameCount) s) of
           (Inl e, s') \<Rightarrow> (Inl e, s')
         | (Inr nextFrame, s') \<Rightarrow>
             inlineLoop h ai motionPrompt frameCount onProgress (i + 1) (Some nextFrame)
               (allFrames @ [nextFrame]) s')
      else (Inr allFrames, s))"
  by pat_completeness auto
termination
  by (relation "measure (\<lambda>(h, ai, motionPrompt, frameCount, onProgress, i, previousFrame, allFrames, s).
                  nat (frameCount + 1 - i))") auto

declare inlineLoop.simps [simp del]

definition generateAnimationFrames_inline ::
  "'w host \<Rightarrow> string \<Rightarrow> int \<Rightarrow> (string \<Rightarrow> 'w \<Rightarrow> 'w) option \<Rightarrow> 'w runtime
     \<Rightarrow> (thrown + string list) \<times> 'w runtime" where
  "generateAnimationFrames_inline h motionPrompt frameCount onProgress s =
     (case getAI s of
        (Inl e, s0) \<Rightarrow> (Inl e, s0)
      | (Inr ai, s0) \<Rightarrow>
          if frameCount < 1 then (Inr [], s0)
          else
            (case inlineLoop h ai motionPrompt frameCount onProgress 1 None [] s0 of
               (Inl e, s1) \<Rightarrow> (Inl (animationCatch e), s1)
             | (Inr allFrames, s1) \<Rightarrow>
                 (Inr allFrames, report onProgress ''Generation complete!'' s1)))"


section \<open>What a run leaves in the trace\<close>

text \<open>
  The observations the statements below are made of, and the invariant of the two frame
  loops.  A produced frame does not depend on the prompt of its call, so \<open>producedFrame\<close>
  reads it off an exchange with the empty prompt.
\<close>

definition attachedImages :: "request \<Rightarrow> Part list" where
  \<comment> \<open>the parts of a request that carry an image\<close>
  "attachedImages req =
     (case contents req of Prompt p \<Rightarrow> [] | Parts ps \<Rightarrow> filter (\<lambda>p. inlineData p \<noteq> None) ps)"

definition promptTexts :: "request \<Rightarrow> string list" where
  \<comment> \<open>the text a request carries\<close>
  "promptTexts req =
     (case contents req of
        Prompt p \<Rightarrow> [p]
      | Parts ps \<Rightarrow> map (\<lambda>p. case text_of p of None \<Rightarrow> [] | Some t \<Rightarrow> t) (filter (\<lambda>p. text_of p \<noteq> None) ps))"

definition producedFrame :: "request \<times> (thrown + response) \<Rightarrow> string option" where
  \<comment> \<open>the frame generateFrame returns from an exchange, if it returns one\<close>
  "producedFrame x =
     (case snd x of
        Inl e \<Rightarrow> None
      | Inr resp \<Rightarrow> (case extractFrame [] resp of Inl e \<Rightarrow> None | Inr f \<Rightarrow> Some f))"

definition returnedData :: "request \<times> (thrown + response) \<Rightarrow> string option" where
  \<comment> \<open>the data of the first part with inline data in the first candidate of the reply\<close>
  "returnedData x =
     (case snd x of
        Inl e \<Rightarrow> None
      | Inr resp \<Rightarrow>
          (case candidates resp of
             [] \<Rightarrow> None
           | candidate # others \<Rightarrow>
               (case find (\<lambda>p. inlineData p \<noteq> None) (parts (content candidate)) of
                  None \<Rightarrow> None
                | Some p \<Rightarrow> map_option data (inlineData p))))"

definition newExchanges :: "'w runtime \<Rightarrow> 'w runtime \<Rightarrow> (request \<times> (thrown + response)) list" where
  \<comment> \<open>the remote calls made between two states of one run\<close>
  "newExchanges s s' = drop (length (trace s)) (trace s')"

definition frameCalls :: "'w runtime \<Rightarrow> 'w runtime \<Rightarrow> (request \<times> (thrown + response)) list" where
  \<comment> \<open>the image-generation calls among them\<close>
  "frameCalls s s' = filter (\<lambda>x. model (fst x) = ''gemini-2.5-flash-image'') (newExchanges s s')"

definition referencePart :: "string \<Rightarrow> Part" where
  \<comment> \<open>for a frame that reads \<^verbatim>\<open>data:image/png;base64,\<close> and then \<open>d\<close>: the image part of type
      image/png whose data is \<open>d\<close> up to its first comma, so all of \<open>d\<close> when it has none\<close>
  "referencePart f =
     \<lparr>inlineData =
        Some \<lparr>data = takeWhile (\<lambda>c. c \<noteq> CHR '','') (drop (length ''data:image/png;base64,'') f),
              mimeType = ''image/png''\<rparr>,
      text_of = None\<rparr>"


definition attachesPrevious :: "(request \<times> (thrown + response)) list \<Rightarrow> bool" where
  \<comment> \<open>the last of these calls attaches, and attaches only, the image part of the frame that
      the call before it produced from the data its reply returned\<close>
  "attachesPrevious calls =
     (case returnedData (calls ! (length calls - 2)) of
        None \<Rightarrow> False
      | Some d \<Rightarrow>
          producedFrame (calls ! (length calls - 2)) = Some (''data:image/png;base64,'' @ d) \<and>
          attachedImages (fst (last calls)) = [referencePart (''data:image/png;base64,'' @ d)])"

fun chain ::
  "(int \<Rightarrow> string) \<Rightarrow> int \<Rightarrow> string option \<Rightarrow> (request \<times> (thrown + response)) list \<Rightarrow> bool" where
  \<comment> \<open>the calls of a frame loop started at index \<open>i\<close> with reference \<open>prev\<close>, for prompts \<open>P\<close>\<close>
  "chain P i prev [] = True"
| "chain P i prev (c # cs) =
     (case referenceParts prev of
        Inl e \<Rightarrow> False
      | Inr ps \<Rightarrow>
          fst c = frameRequest ps (P i) \<and>
          (case producedFrame c of
             None \<Rightarrow> cs = []
           | Some f \<Rightarrow> chain P (i + 1) (Some f) cs))"

definition loopSpec ::
  "(int \<Rightarrow> string) \<Rightarrow> int \<Rightarrow> int \<Rightarrow> string option \<Rightarrow> string list \<Rightarrow> 'w runtime
     \<Rightarrow> (thrown + string list) \<times> 'w runtime \<Rightarrow> bool" where
  \<comment> \<open>what a frame loop with \<open>remaining\<close> rounds to go has done when it stops in \<open>out\<close>\<close>
  "loopSpec P remaining i prev acc s out =
     (\<exists>calls. trace (snd out) = trace s @ calls \<and> chain P i prev calls
        \<and> aiInstance (snd out) = aiInstance s \<and> API_KEY (snd out) = API_KEY s
        \<and> (\<forall>c \<in> set calls. model (fst c) = ''gemini-2.5-flash-image'')
        \<and> int (length calls) \<le> max 0 remaining
        \<and> (case fst out of
              Inl e \<Rightarrow> True
            | Inr fs \<Rightarrow> int (length calls) = max 0 remaining
                 \<and> map producedFrame calls = map Some (drop (length acc) fs)
                 \<and> take (length acc) fs = acc))"

definition concludesMotion :: "string \<Rightarrow> bool" where
  \<comment> \<open>the prompt tells the model to conclude the motion, fully settled\<close>
  "concludesMotion prompt =
     (str_includes prompt ''create the **absolute conclusion** of the motion'' \<and>
      str_includes prompt ''The action should be fully completed and settled.'')"

definition validDescription :: "json \<Rightarrow> bool" where
  \<comment> \<open>a storyboard entry whose frame description is there, is a string and is not empty\<close>
  "validDescription entry =
     (case entry of
        JObject kvs \<Rightarrow>
          (case map_of kvs ''frame_description'' of Some (JString d) \<Rightarrow> d \<noteq> [] | _ \<Rightarrow> False)
      | _ \<Rightarrow> False)"

definition descriptionOf :: "json \<Rightarrow> string option" where
  \<comment> \<open>the frame description of a storyboard entry, when it is a string\<close>
  "descriptionOf entry =
     (case entry of
        JObject kvs \<Rightarrow>
          (case map_of kvs ''frame_description'' of Some (JString d) \<Rightarrow> Some d | _ \<Rightarrow> None)
      | _ \<Rightarrow> None)"

definition clientAvailable :: "'w runtime \<Rightarrow> bool" where
  \<comment> \<open>a client exists already, or the credential to create one is set\<close>
  "clientAvailable s =
     (aiInstance s \<noteq> None \<or> (case API_KEY s of None \<Rightarrow> False | Some k \<Rightarrow> k \<noteq> []))"

section \<open>Playback and export (App.tsx)\<close>

text \<open>
  The browser as the export sees it: loading an image from a frame either fires
  \<^verbatim>\<open>onload\<close> with the image or \<^verbatim>\<open>onerror\<close>, and the encoder library, once told to render
  the frames it was given, either emits \<^verbatim>\<open>finished\<close> with the file or never does.
  The component state keeps, next to the React state, what the encoder was handed and what
  was offered for download.
\<close>

record ('img, 'blob) browser =
  Image_load :: "string \<Rightarrow> 'img option"
  GIF_render :: "('img \<times> int) list \<Rightarrow> 'blob option"

record ('img, 'blob) app =
  frames :: "string list option"
  playbackSpeed :: int
  isCreatingGif :: bool
  error :: "string option"
  gifWorkerUrl :: "string option"
  addFrame_calls :: "('img \<times> int) list"
  render_calls :: nat
  downloads :: "(string \<times> 'blob) list"

definition intervalDuration :: "int \<Rightarrow> int" where
  \<comment> \<open>AnimationPlayer: the period of the playback timer\<close>
  "intervalDuration speed = 1100 - speed"

definition playbackTimer :: "string list \<Rightarrow> int \<Rightarrow> int option" where
  \<comment> \<open>AnimationPlayer's effect: no timer below two frames\<close>
  "playbackTimer fs speed = (if length fs < 2 then None else Some (intervalDuration speed))"

definition tick :: "string list \<Rightarrow> nat \<Rightarrow> nat" where
  \<comment> \<open>what the timer does to the index of the frame on display\<close>
  "tick fs prevFrame = (prevFrame + 1) mod length fs"

fun Promise_all :: "'a option list \<Rightarrow> 'a list option" where
  \<comment> \<open>all results in the order of the promises, or rejection when one of them rejects\<close>
  "Promise_all [] = Some []"
| "Promise_all (p # ps) =
     (case p of
        None \<Rightarrow> None
      | Some x \<Rightarrow> (case Promise_all ps of None \<Rightarrow> None | Some xs \<Rightarrow> Some (x # xs)))"

definition workerReady :: "('img, 'blob) app \<Rightarrow> bool" where
  "workerReady a = (case gifWorkerUrl a of None \<Rightarrow> False | Some u \<Rightarrow> u \<noteq> [])"

definition handleDownload :: "('img, 'blob) browser \<Rightarrow> ('img, 'blob) app \<Rightarrow> ('img, 'blob) app" where
  "handleDownload b a =
     (case frames a of
        None \<Rightarrow>
          a\<lparr>error := Some (if workerReady a then ''No frames to create a GIF from.''
                            else ''GIF downloader is not ready.'')\<rparr>
      | Some fs \<Rightarrow>
          if fs = [] \<or> \<not> workerReady a then
            a\<lparr>error := Some (if workerReady a then ''No frames to create a GIF from.''
                              else ''GIF downloader is not ready.'')\<rparr>
          else
            let a0 = a\<lparr>isCreatingGif := True, error := None\<rparr>
            in (case Promise_all (map (Image_load b) fs) of
                  None \<Rightarrow>
                    a0\<lparr>error := Some (''Failed to create GIF: '' @ ''Failed to load an image frame.''),
                       isCreatingGif := False\<rparr>
                | Some loadedImages \<Rightarrow>
                    let added = map (\<lambda>img. (img, 1100 - playbackSpeed a0)) loadedImages;
                        a1 = a0\<lparr>addFrame_calls := addFrame_calls a0 @ added,
                                render_calls := render_calls a0 + 1\<rparr>
                    in (case GIF_render b added of
                          None \<Rightarrow> a1
                        | Some blob \<Rightarrow>
                            a1\<lparr>downloads := downloads a1 @ [(''animation.gif'', blob)],
                               isCreatingGif := False\<rparr>)))"

section \<open>Concrete hosts for the checks at concrete inputs\<close>

definition pngPart :: "string \<Rightarrow> Part" where
  "pngPart d = \<lparr>inlineData = Some \<lparr>data = d, mimeType = ''image/png''\<rparr>, text_of = None\<rparr>"

definition imageReply :: "string \<Rightarrow> response" where
  "imageReply d = \<lparr>candidates = [\<lparr>content = \<lparr>parts = [pngPart d]\<rparr>\<rparr>], response_text = None\<rparr>"

definition storyboardEntry :: "string \<Rightarrow> json" where
  "storyboardEntry d = JObject [(''technical_notes'', JString ''notes''), (''frame_description'', JString d)]"

definition plan :: "string list \<Rightarrow> json" where
  "plan ds = JObject [(''storyboard'', JArray (map storyboardEntry ds))]"

definition demoHost :: "json \<Rightarrow> nat host" where
  \<comment> \<open>the planner's answer parses to the given value; the \<open>n\<close>-th call for an image is answered
      with the image \<open>F\<close>\<open>n\<close>; the world counts the calls\<close>
  "demoHost parsed =
     \<lparr>models_generateContent = (\<lambda>ai req n.
        (if model req = ''gemini-2.5-pro''
         then Inr \<lparr>candidates = [], response_text = Some ''{}''\<rparr>
         else Inr (imageReply (''F'' @ digits n)), Suc n)),
      JSON_parse = (\<lambda>t. Inr parsed)\<rparr>"

definition captionCandidate :: Candidate where
  "captionCandidate = \<lparr>content = \<lparr>parts = [\<lparr>inlineData = None, text_of = Some ''no image''\<rparr>]\<rparr>\<rparr>"

definition replyHost :: "response \<Rightarrow> nat host" where
  \<comment> \<open>every call is answered with the given response\<close>
  "replyHost resp =
     \<lparr>models_generateContent = (\<lambda>ai req n. (Inr resp, Suc n)),
      JSON_parse = (\<lambda>t. Inr JNull)\<rparr>"

definition ready :: "nat runtime" where
  "ready = \<lparr>aiInstance = None, API_KEY = Some ''key'', world = 0, trace = []\<rparr>"

definition unconfigured :: "nat runtime" where
  "unconfigured = \<lparr>aiInstance = None, API_KEY = None, world = 0, trace = []\<rparr>"

definition demoBrowser :: "(string, string list) browser" where
  \<comment> \<open>every frame but the one named \<open>broken\<close> loads\<close>
  "demoBrowser =
     \<lparr>Image_load = (\<lambda>src. if src = ''broken'' then None else Some (''img:'' @ src)),
      GIF_render = (\<lambda>added. Some (map fst added))\<rparr>"

definition demoApp :: "string list \<Rightarrow> (string, string list) app" where
  "demoApp fs =
     \<lparr>frames = Some fs, playbackSpeed = 500, isCreatingGif = False, error = None,
      gifWorkerUrl = Some ''blob:worker'', addFrame_calls = [], render_calls = 0, downloads = []\<rparr>"


section \<open>Basic facts\<close>

lemma report_trace [simp]: "trace (report cb m s) = trace s"
  and report_aiInstance [simp]: "aiInstance (report cb m s) = aiInstance s"
  and report_API_KEY [simp]: "API_KEY (report cb m s) = API_KEY s"
  by (auto simp: report_def split: option.splits)

lemma getAI_unconfigured:
  "aiInstance s = None \<Longrightarrow> API_KEY s = None \<or> API_KEY s = Some [] \<Longrightarrow>
   getAI s = (Inl (Error ''API key is not configured. Please set the API_KEY environment variable.''), s)"
  by (auto simp: getAI_def)

lemma getAI_available:
  "clientAvailable s \<Longrightarrow> \<exists>ai s0. getAI s = (Inr ai, s0) \<and> trace s0 = trace s \<and> world s0 = world s"
  by (auto simp: getAI_def clientAvailable_def split: option.splits)

lemma getAI_state:
  "getAI s = (r, s0) \<Longrightarrow> trace s0 = trace s \<and> world s0 = world s \<and> API_KEY s0 = API_KEY s"
  by (auto simp: getAI_def split: option.splits if_splits)

text \<open>
  C10.  The client is resolved before the frame count is looked at: with no client created
  yet and no credential in the environment (unset or empty), both orchestrators throw the
  configuration error, untouched by their own catch clause, whatever the frame count is
  (so also for 0 and below), and nothing else has happened.
\<close>

theorem missing_credential_precedes_frame_count:
  assumes "aiInstance s = None" and "API_KEY s = None \<or> API_KEY s = Some []"
  shows "generateAnimationFrames h motionPrompt frameCount onProgress s =
           (Inl (Error ''API key is not configured. Please set the API_KEY environment variable.''), s)
       \<and> generateAnimationFrames_inline h motionPrompt frameCount onProgress s =
           (Inl (Error ''API key is not configured. Please set the API_KEY environment variable.''), s)"
  using getAI_unconfigured [OF assms]
  by (simp add: generateAnimationFrames_def generateAnimationFrames_inline_def)

theorem missing_credential_precedes_frame_count_witness:
  "aiInstance unconfigured = None \<and> API_KEY unconfigured = None
   \<and> fst (generateAnimationFrames (demoHost JNull) ''jump'' 0 None unconfigured) =
       Inl (Error ''API key is not configured. Please set the API_KEY environment variable.'')
   \<and> fst (generateAnimationFrames_inline (demoHost JNull) ''jump'' 0 None unconfigured) =
       Inl (Error ''API key is not configured. Please set the API_KEY environment variable.'')"
proof -
  have a: "aiInstance unconfigured = None" by (simp add: unconfigured_def)
  have k: "API_KEY unconfigured = None \<or> API_KEY unconfigured = Some []" by (simp add: unconfigured_def)
  show ?thesis
    using a k missing_credential_precedes_frame_count [where h = "demoHost JNull"
        and motionPrompt = "''jump''" and frameCount = 0 and onProgress = None, OF a k]
    by (simp add: unconfigured_def)
qed

text \<open>
  C5, as stated, fails where the credential is missing: the call with frame count 0 does not
  return the empty sequence.
\<close>

theorem empty_result_counterexample:
  "fst (generateAnimationFrames (demoHost JNull) ''jump'' 0 None unconfigured) \<noteq> Inr []
   \<and> fst (generateAnimationFrames_inline (demoHost JNull) ''jump'' 0 None unconfigured) \<noteq> Inr []"
  by (simp add: generateAnimationFrames_def generateAnimationFrames_inline_def getAI_def unconfigured_def)

text \<open>
  C5, amended.  For every frame count below 1 neither orchestrator makes a remote call or
  reports progress, and when a client is available it returns the empty sequence.
\<close>

theorem below_one_frame_no_remote_call:
  assumes "frameCount < 1"
    and "run = generateAnimationFrames h motionPrompt frameCount onProgress s
         \<or> run = generateAnimationFrames_inline h motionPrompt frameCount onProgress s"
  shows "newExchanges s (snd run) = [] \<and> world (snd run) = world s
         \<and> (clientAvailable s \<longrightarrow> fst run = Inr [])"
proof -
  obtain r s0 where g: "getAI s = (r, s0)" by (cases "getAI s")
  note st = getAI_state [OF g]
  have "trace (snd run) = trace s \<and> world (snd run) = world s"
    using assms g st
    by (cases r) (auto simp: generateAnimationFrames_def generateAnimationFrames_inline_def)
  moreover have "fst run = Inr []" if "clientAvailable s"
    using getAI_available [OF that] assms
    by (auto simp: generateAnimationFrames_def generateAnimationFrames_inline_def)
  ultimately show ?thesis by (simp add: newExchanges_def)
qed

theorem below_one_frame_no_remote_call_witness:
  "(0::int) < 1 \<and> clientAvailable ready
   \<and> newExchanges ready (snd (generateAnimationFrames (demoHost JNull) ''jump'' 0 None ready)) = []
   \<and> fst (generateAnimationFrames (demoHost JNull) ''jump'' 0 None ready) = Inr []
   \<and> newExchanges ready (snd (generateAnimationFrames_inline (demoHost JNull) ''jump'' (- 2) None ready)) = []
   \<and> fst (generateAnimationFrames_inline (demoHost JNull) ''jump'' (- 2) None ready) = Inr []"
proof -
  have c: "clientAvailable ready" by (simp add: clientAvailable_def ready_def)
  have z: "(0::int) < 1" and m: "(- 2::int) < 1" by simp_all
  show ?thesis
    using c
      below_one_frame_no_remote_call [where h = "demoHost JNull" and motionPrompt = "''jump''"
        and onProgress = None and s = ready, OF z disjI1 [OF refl]]
      below_one_frame_no_remote_call [where h = "demoHost JNull" and motionPrompt = "''jump''"
        and onProgress = None and s = ready, OF m disjI2 [OF refl]]
    by simp
qed

section \<open>One call of generateFrame\<close>

lemma extractFrame_prompt:
  "extractFrame p resp = Inr f \<longleftrightarrow> extractFrame q resp = Inr f"
  by (auto simp: extractFrame_def split: list.splits option.splits)

lemma producedFrame_iff:
  "producedFrame (req, Inr resp) = Some f \<longleftrightarrow> extractFrame p resp = Inr f"
  using extractFrame_prompt [of "[]" resp f p]
  by (auto simp: producedFrame_def split: sum.splits)

lemma producedFrame_None:
  "extractFrame p resp = Inl e \<Longrightarrow> producedFrame (req, Inr resp) = None"
  using extractFrame_prompt [of "[]" resp _ p]
  by (cases "extractFrame [] resp") (auto simp: producedFrame_def)

lemma generateFrame_cases:
  assumes "generateFrame h ai p prev s = (r, s')"
  obtains (bad_reference) e where "referenceParts prev = Inl e" "r = Inl e" "s' = s"
  | (called) ps reply where "referenceParts prev = Inr ps"
      "trace s' = trace s @ [(frameRequest ps p, reply)]"
      "aiInstance s' = aiInstance s" "API_KEY s' = API_KEY s"
      "r = (case reply of Inl e \<Rightarrow> Inl e | Inr resp \<Rightarrow> extractFrame p resp)"
proof (cases "referenceParts prev")
  case (Inl e)
  with assms bad_reference show ?thesis by (simp add: generateFrame_def)
next
  case (Inr ps)
  obtain reply w where m: "models_generateContent h ai (frameRequest ps p) (world s) = (reply, w)"
    by (cases "models_generateContent h ai (frameRequest ps p) (world s)")
  from assms Inr m have "trace s' = trace s @ [(frameRequest ps p, reply)]"
    "aiInstance s' = aiInstance s" "API_KEY s' = API_KEY s"
    "r = (case reply of Inl e \<Rightarrow> Inl e | Inr resp \<Rightarrow> extractFrame p resp)"
    by (auto simp: generateFrame_def generateContent_def split: sum.splits)
  with Inr called show ?thesis by blast
qed

lemma frameRequest_model [simp]: "model (frameRequest ps p) = ''gemini-2.5-flash-image''"
  by (simp add: frameRequest_def)

section \<open>The frame loops\<close>

lemma loopSpec_done: "remaining \<le> 0 \<Longrightarrow> loopSpec P remaining i prev acc s (Inr acc, s)"
  by (simp add: loopSpec_def)

lemma loopSpec_bad_reference:
  "0 < remaining \<Longrightarrow> referenceParts prev = Inl e \<Longrightarrow> trace s0 = trace s \<Longrightarrow>
   aiInstance s0 = aiInstance s \<Longrightarrow> API_KEY s0 = API_KEY s \<Longrightarrow>
   loopSpec P remaining i prev acc s (Inl e', s0)"
  by (simp add: loopSpec_def)

lemma loopSpec_failed_call:
  assumes "0 < remaining" "referenceParts prev = Inr ps"
    "trace s1 = trace s @ [(frameRequest ps (P i), reply)]"
    "aiInstance s1 = aiInstance s" "API_KEY s1 = API_KEY s"
    "(case reply of Inl e \<Rightarrow> Inl e | Inr resp \<Rightarrow> extractFrame (P i) resp) = Inl e"
  shows "loopSpec P remaining i prev acc s (Inl e', s1)"
proof -
  have "producedFrame (frameRequest ps (P i), reply) = None"
  proof (cases reply)
    case (Inl a)
    then show ?thesis by (simp add: producedFrame_def)
  next
    case (Inr resp)
    with assms(6) show ?thesis by (auto intro: producedFrame_None)
  qed
  with assms show ?thesis
    unfolding loopSpec_def
    by (intro exI [of _ "[(frameRequest ps (P i), reply)]"]) simp
qed

lemma take_Suc_snoc:
  assumes "take (Suc (length acc)) fs = acc @ [f]"
  shows "length acc < length fs" "take (length acc) fs = acc" "fs ! length acc = f"
proof -
  have "length (take (Suc (length acc)) fs) = Suc (length acc)"
    by (simp only: assms length_append_singleton)
  then show len: "length acc < length fs" by simp
  then have "take (Suc (length acc)) fs = take (length acc) fs @ [fs ! length acc]"
    by (rule take_Suc_conv_app_nth)
  with assms have "take (length acc) fs @ [fs ! length acc] = acc @ [f]" by simp
  then show "take (length acc) fs = acc" "fs ! length acc = f" by simp_all
qed

lemma loopSpec_step:
  assumes "0 < remaining" "referenceParts prev = Inr ps"
    "trace s1 = trace s @ [(frameRequest ps (P i), reply)]"
    "aiInstance s1 = aiInstance s" "API_KEY s1 = API_KEY s"
    "(case reply of Inl e \<Rightarrow> Inl e | Inr resp \<Rightarrow> extractFrame (P i) resp) = Inr f"
    "loopSpec P (remaining - 1) (i + 1) (Some f) (acc @ [f]) s1 out"
  shows "loopSpec P remaining i prev acc s out"
proof -
  have pf: "producedFrame (frameRequest ps (P i), reply) = Some f"
    using assms(6) by (cases reply) (simp_all add: producedFrame_iff [of _ _ _ "P i"])
  from assms(7) obtain calls where c:
    "trace (snd out) = trace s1 @ calls" "chain P (i + 1) (Some f) calls"
    "aiInstance (snd out) = aiInstance s1" "API_KEY (snd out) = API_KEY s1"
    "\<forall>c \<in> set calls. model (fst c) = ''gemini-2.5-flash-image''"
    "int (length calls) \<le> max 0 (remaining - 1)"
    "case fst out of Inl e \<Rightarrow> True
     | Inr fs \<Rightarrow> int (length calls) = max 0 (remaining - 1)
          \<and> map producedFrame calls = map Some (drop (length (acc @ [f])) fs)
          \<and> take (length (acc @ [f])) fs = acc @ [f]"
    unfolding loopSpec_def by blast
  let ?calls = "(frameRequest ps (P i), reply) # calls"
  have 1: "trace (snd out) = trace s @ ?calls" using c(1) assms(3) by simp
  have 2: "chain P i prev ?calls" using assms(2) pf c(2) by simp
  have 3: "\<forall>c \<in> set ?calls. model (fst c) = ''gemini-2.5-flash-image''" using c(5) by simp
  have 4: "int (length ?calls) \<le> max 0 remaining" using c(6) assms(1) by simp
  have 5: "case fst out of Inl e \<Rightarrow> True
     | Inr fs \<Rightarrow> int (length ?calls) = max 0 remaining
          \<and> map producedFrame ?calls = map Some (drop (length acc) fs)
          \<and> take (length acc) fs = acc"
  proof (cases "fst out")
    case (Inl e)
    then show ?thesis by simp
  next
    case (Inr fs)
    with c(7) have l: "int (length calls) = max 0 (remaining - 1)"
      and m: "map producedFrame calls = map Some (drop (Suc (length acc)) fs)"
      and t: "take (Suc (length acc)) fs = acc @ [f]" by simp_all
    note len = take_Suc_snoc(1) [OF t] and tk = take_Suc_snoc(2) [OF t]
      and nth = take_Suc_snoc(3) [OF t]
    have "drop (length acc) fs = f # drop (Suc (length acc)) fs"
      using len nth by (metis Cons_nth_drop_Suc)
    with l m tk pf assms(1) Inr show ?thesis by simp
  qed
  have 6: "aiInstance (snd out) = aiInstance s" "API_KEY (snd out) = API_KEY s"
    using c(3) c(4) assms(4) assms(5) by simp_all
  show ?thesis unfolding loopSpec_def
    using 1 2 3 4 5 6 by blast
qed

lemma inlineLoop_unfold_else:
  "\<not> i \<le> frameCount \<Longrightarrow> inlineLoop h ai motionPrompt frameCount cb i prev acc s = (Inr acc, s)"
  by (subst inlineLoop.simps) simp

lemma inlineLoop_unfold_fail:
  "i \<le> frameCount \<Longrightarrow>
   generateFrame h ai (inlineFramePrompt motionPrompt frameCount i) prev
     (report cb (generatingMessage i frameCount) s) = (Inl e, s1) \<Longrightarrow>
   inlineLoop h ai motionPrompt frameCount cb i prev acc s = (Inl e, s1)"
  by (subst inlineLoop.simps) simp

lemma inlineLoop_unfold_next:
  "i \<le> frameCount \<Longrightarrow>
   generateFrame h ai (inlineFramePrompt motionPrompt frameCount i) prev
     (report cb (generatingMessage i frameCount) s) = (Inr f, s1) \<Longrightarrow>
   inlineLoop h ai motionPrompt frameCount cb i prev acc s
     = inlineLoop h ai motionPrompt frameCount cb (i + 1) (Some f) (acc @ [f]) s1"
  by (subst inlineLoop.simps) simp

lemma inlineLoop_spec:
  "loopSpec (inlineFramePrompt motionPrompt frameCount) (frameCount + 1 - i) i prev acc s
     (inlineLoop h ai motionPrompt frameCount cb i prev acc s)"
proof (induction h ai motionPrompt frameCount cb i prev acc s rule: inlineLoop.induct)
  case (1 h ai motionPrompt frameCount cb i prev acc s)
  let ?P = "inlineFramePrompt motionPrompt frameCount"
  let ?s = "report cb (generatingMessage i frameCount) s"
  show ?case
  proof (cases "i \<le> frameCount")
    case False
    then show ?thesis
      by (simp add: inlineLoop_unfold_else loopSpec_done)
  next
    case True
    then have pos: "0 < frameCount + 1 - i" by simp
    obtain r s1 where g: "generateFrame h ai (?P i) prev ?s = (r, s1)"
      by (cases "generateFrame h ai (?P i) prev ?s")
    from g show ?thesis
    proof (cases rule: generateFrame_cases)
      case (bad_reference e)
      have "inlineLoop h ai motionPrompt frameCount cb i prev acc s = (Inl e, s1)"
        using True g bad_reference(2) by (simp add: inlineLoop_unfold_fail)
      moreover have "loopSpec ?P (frameCount + 1 - i) i prev acc s (Inl e, s1)"
        using pos bad_reference by (intro loopSpec_bad_reference [where e = e]) simp_all
      ultimately show ?thesis by simp
    next
      case (called ps reply)
      have tr: "trace s1 = trace s @ [(frameRequest ps (?P i), reply)]"
        and ai: "aiInstance s1 = aiInstance s" and key: "API_KEY s1 = API_KEY s"
        using called by simp_all
      show ?thesis
      proof (cases r)
        case (Inl e)
        have "inlineLoop h ai motionPrompt frameCount cb i prev acc s = (Inl e, s1)"
          using True g Inl by (simp add: inlineLoop_unfold_fail)
        moreover have "loopSpec ?P (frameCount + 1 - i) i prev acc s (Inl e, s1)"
          using pos called(1) tr ai key called(5) [unfolded Inl, symmetric]
          by (rule loopSpec_failed_call)
        ultimately show ?thesis by simp
      next
        case (Inr f)
        have "loopSpec ?P (frameCount + 1 - i - 1) (i + 1) (Some f) (acc @ [f]) s1
                (inlineLoop h ai motionPrompt frameCount cb (i + 1) (Some f) (acc @ [f]) s1)"
          using "1.IH" [OF True g [symmetric] Inr]
          by (simp only: diff_diff_eq add.commute [of 1 i])
        with pos called(1) tr ai key called(5) [unfolded Inr, symmetric]
        have "loopSpec ?P (frameCount + 1 - i) i prev acc s
                (inlineLoop h ai motionPrompt frameCount cb (i + 1) (Some f) (acc @ [f]) s1)"
          by (rule loopSpec_step)
        moreover have "inlineLoop h ai motionPrompt frameCount cb i prev acc s
            = inlineLoop h ai motionPrompt frameCount cb (i + 1) (Some f) (acc @ [f]) s1"
          using True g Inr by (simp add: inlineLoop_unfold_next)
        ultimately show ?thesis by simp
      qed
    qed
  qed
qed

lemma storyboardLoop_unfold_else:
  "\<not> i < frameCount \<Longrightarrow> storyboardLoop h ai frameCount cb sb i prev acc s = (Inr acc, s)"
  by (subst storyboardLoop.simps) simp

lemma storyboardLoop_unfold_fail:
  "i < frameCount \<Longrightarrow>
   generateFrame h ai (storyboardFramePrompt frameCount sb i) prev
     (report cb (generatingMessage (i + 1) frameCount) s) = (Inl e, s1) \<Longrightarrow>
   storyboardLoop h ai frameCount cb sb i prev acc s = (Inl e, s1)"
  by (subst storyboardLoop.simps) simp

lemma storyboardLoop_unfold_next:
  "i < frameCount \<Longrightarrow>
   generateFrame h ai (storyboardFramePrompt frameCount sb i) prev
     (report cb (generatingMessage (i + 1) frameCount) s) = (Inr f, s1) \<Longrightarrow>
   storyboardLoop h ai frameCount cb sb i prev acc s
     = storyboardLoop h ai frameCount cb sb (i + 1) (Some f) (acc @ [f]) s1"
  by (subst storyboardLoop.simps) simp

lemma storyboardLoop_spec:
  "loopSpec (storyboardFramePrompt frameCount sb) (frameCount - i) i prev acc s
     (storyboardLoop h ai frameCount cb sb i prev acc s)"
proof (induction h ai frameCount cb sb i prev acc s rule: storyboardLoop.induct)
  case (1 h ai frameCount cb sb i prev acc s)
  let ?P = "storyboardFramePrompt frameCount sb"
  let ?s = "report cb (generatingMessage (i + 1) frameCount) s"
  show ?case
  proof (cases "i < frameCount")
    case False
    then show ?thesis
      by (simp add: storyboardLoop_unfold_else loopSpec_done)
  next
    case True
    then have pos: "0 < frameCount - i" by simp
    obtain r s1 where g: "generateFrame h ai (?P i) prev ?s = (r, s1)"
      by (cases "generateFrame h ai (?P i) prev ?s")
    from g show ?thesis
    proof (cases rule: generateFrame_cases)
      case (bad_reference e)
      have "storyboardLoop h ai frameCount cb sb i prev acc s = (Inl e, s1)"
        using True g bad_reference(2) by (simp add: storyboardLoop_unfold_fail)
      moreover have "loopSpec ?P (frameCount - i) i prev acc s (Inl e, s1)"
        using pos bad_reference by (intro loopSpec_bad_reference [where e = e]) simp_all
      ultimately show ?thesis by simp
    next
      case (called ps reply)
      have tr: "trace s1 = trace s @ [(frameRequest ps (?P i), reply)]"
        and ai: "aiInstance s1 = aiInstance s" and key: "API_KEY s1 = API_KEY s"
        using called by simp_all
      show ?thesis
      proof (cases r)
        case (Inl e)
        have "storyboardLoop h ai frameCount cb sb i prev acc s = (Inl e, s1)"
          using True g Inl by (simp add: storyboardLoop_unfold_fail)
        moreover have "loopSpec ?P (frameCount - i) i prev acc s (Inl e, s1)"
          using pos called(1) tr ai key called(5) [unfolded Inl, symmetric]
          by (rule loopSpec_failed_call)
        ultimately show ?thesis by simp
      next
        case (Inr f)
        have "loopSpec ?P (frameCount - i - 1) (i + 1) (Some f) (acc @ [f]) s1
                (storyboardLoop h ai frameCount cb sb (i + 1) (Some f) (acc @ [f]) s1)"
          using "1.IH" [OF True g [symmetric] Inr]
          by (simp only: diff_diff_eq)
        with pos called(1) tr ai key called(5) [unfolded Inr, symmetric]
        have "loopSpec ?P (frameCount - i) i prev acc s
                (storyboardLoop h ai frameCount cb sb (i + 1) (Some f) (acc @ [f]) s1)"
          by (rule loopSpec_step)
        moreover have "storyboardLoop h ai frameCount cb sb i prev acc s
            = storyboardLoop h ai frameCount cb sb (i + 1) (Some f) (acc @ [f]) s1"
          using True g Inr by (simp add: storyboardLoop_unfold_next)
        ultimately show ?thesis by simp
      qed
    qed
  qed
qed

lemma split_on_data_url:
  "split_on CHR '','' (''data:image/png;base64,'' @ d) = ''data:image/png;base64'' # split_on CHR '','' d"
  by simp

lemma match_mime_data_url: "match_mime ''data:image/png;base64'' = Some ''image/png''"
  by (simp add: is_line_terminator_def)

lemma split_on_nonempty: "split_on sep s \<noteq> []"
  by (induction s) (auto split: list.splits)

lemma base64ToPart_data_url:
  "base64ToPart (''data:image/png;base64,'' @ d) =
     (if hd (split_on CHR '','' d) = [] then Inl (Error ''Invalid base64 data URL format.'')
      else Inr \<lparr>inlineData = Some \<lparr>data = hd (split_on CHR '','' d), mimeType = ''image/png''\<rparr>,
                text_of = None\<rparr>)"
proof -
  obtain x xs where x: "split_on CHR '','' d = x # xs"
    using split_on_nonempty [of "CHR '',''" d] by (cases "split_on CHR '','' d") auto
  show ?thesis
    unfolding base64ToPart_def split_on_data_url x
    by (simp add: match_mime_data_url del: match_mime.simps)
qed

lemma split_on_no_separator: "sep \<notin> set s \<Longrightarrow> split_on sep s = [s]"
  by (induction s) auto

lemma base64ToPart_plain_payload:
  "d \<noteq> [] \<Longrightarrow> CHR '','' \<notin> set d \<Longrightarrow>
   base64ToPart (''data:image/png;base64,'' @ d) = Inr (pngPart d)"
  by (subst base64ToPart_data_url) (simp add: split_on_no_separator pngPart_def)

lemma base64ToPart_inline: "base64ToPart f = Inr p \<Longrightarrow> inlineData p \<noteq> None \<and> text_of p = None"
  by (auto simp: base64ToPart_def Let_def split: list.splits if_splits)

lemma producedFrame_prefix:
  "producedFrame c = Some f \<Longrightarrow> \<exists>d. f = ''data:image/png;base64,'' @ d"
  by (auto simp: producedFrame_def extractFrame_def split: sum.splits list.splits option.splits)

lemma firstInlineData_find:
  "firstInlineData ps =
     (case find (\<lambda>p. inlineData p \<noteq> None) ps of None \<Rightarrow> None | Some p \<Rightarrow> inlineData p)"
  by (induction ps) (auto split: option.splits)

lemma producedFrame_returnedData:
  "producedFrame c = map_option ((@) ''data:image/png;base64,'') (returnedData c)"
  unfolding producedFrame_def returnedData_def extractFrame_def firstInlineData_find
  by (auto split: sum.splits list.splits option.splits)

lemma referenceParts_None [simp]: "referenceParts None = Inr []"
  by (simp add: referenceParts_def)

lemma hd_split_on: "hd (split_on sep d) = takeWhile (\<lambda>c. c \<noteq> sep) d"
  using split_on_nonempty [of sep]
  by (induction d) (auto split: list.splits)

lemma referencePart_data_url:
  "referencePart (''data:image/png;base64,'' @ d) =
     \<lparr>inlineData = Some \<lparr>data = takeWhile (\<lambda>c. c \<noteq> CHR '','') d, mimeType = ''image/png''\<rparr>,
      text_of = None\<rparr>"
  by (simp add: referencePart_def)


lemma referenceParts_frame:
  assumes "producedFrame c = Some f" "referenceParts (Some f) = Inr ps"
  shows "ps = [referencePart f] \<and> (\<forall>p \<in> set ps. inlineData p \<noteq> None \<and> text_of p = None)"
proof -
  from producedFrame_prefix [OF assms(1)] obtain d where d: "f = ''data:image/png;base64,'' @ d"
    by blast
  then have "f \<noteq> []" by auto
  with assms(2) obtain p where p: "base64ToPart f = Inr p" "ps = [p]"
    by (auto simp: referenceParts_def split: sum.splits)
  from p(1) have "p = referencePart f"
    unfolding d base64ToPart_data_url referencePart_data_url hd_split_on
    by (simp split: if_splits)
  with p base64ToPart_inline [OF p(1)] show ?thesis by simp
qed

lemma attachedImages_frameRequest:
  "\<forall>p \<in> set ps. inlineData p \<noteq> None \<Longrightarrow> attachedImages (frameRequest ps q) = ps"
  by (simp add: attachedImages_def frameRequest_def)

lemma promptTexts_frameRequest:
  "\<forall>p \<in> set ps. text_of p = None \<Longrightarrow> promptTexts (frameRequest ps q) = [q]"
  by (simp add: promptTexts_def frameRequest_def)

lemma chain_nth:
  assumes "chain P i prev calls" "k < length calls"
  shows "\<exists>ps. fst (calls ! k) = frameRequest ps (P (i + int k)) \<and>
           (if k = 0 then referenceParts prev = Inr ps
            else \<exists>f. producedFrame (calls ! (k - 1)) = Some f \<and> referenceParts (Some f) = Inr ps)"
  using assms
proof (induction calls arbitrary: i prev k)
  case Nil
  then show ?case by simp
next
  case (Cons c cs)
  from Cons.prems(1) obtain ps where ps: "referenceParts prev = Inr ps"
    "fst c = frameRequest ps (P i)"
    "case producedFrame c of None \<Rightarrow> cs = [] | Some f \<Rightarrow> chain P (i + 1) (Some f) cs"
    by (auto split: sum.splits)
  show ?case
  proof (cases k)
    case 0
    with ps show ?thesis by simp
  next
    case (Suc j)
    with Cons.prems(2) have j: "j < length cs" by simp
    then have "cs \<noteq> []" by auto
    with ps(3) obtain f where f: "producedFrame c = Some f" "chain P (i + 1) (Some f) cs"
      by (auto split: option.splits)
    from Cons.IH [OF f(2) j] obtain qs where qs:
      "fst (cs ! j) = frameRequest qs (P (i + 1 + int j))"
      "if j = 0 then referenceParts (Some f) = Inr qs
       else \<exists>g. producedFrame (cs ! (j - 1)) = Some g \<and> referenceParts (Some g) = Inr qs"
      by blast
    have "(if j = 0 then referenceParts (Some f) = Inr qs
       else \<exists>g. producedFrame (cs ! (j - 1)) = Some g \<and> referenceParts (Some g) = Inr qs)
      \<Longrightarrow> \<exists>g. producedFrame ((c # cs) ! j) = Some g \<and> referenceParts (Some g) = Inr qs"
      using f(1) by (cases j) auto
    with qs Suc show ?thesis by (auto simp: add.assoc)
  qed
qed


section \<open>Substrings\<close>

lemma str_includes_iff: "str_includes s sub \<longleftrightarrow> (\<exists>a b. s = a @ sub @ b)"
proof (induction s)
  case Nil
  then show ?case by auto
next
  case (Cons c cs)
  show ?case
  proof
    assume "str_includes (c # cs) sub"
    then consider "prefix sub (c # cs)" | "str_includes cs sub" by auto
    then show "\<exists>a b. c # cs = a @ sub @ b"
    proof cases
      case 1
      then obtain b where "c # cs = sub @ b" by (auto simp: prefix_def)
      then have "c # cs = [] @ sub @ b" by simp
      then show ?thesis by blast
    next
      case 2
      with Cons.IH obtain a b where "cs = a @ sub @ b" by blast
      then have "c # cs = (c # a) @ sub @ b" by simp
      then show ?thesis by blast
    qed
  next
    assume "\<exists>a b. c # cs = a @ sub @ b"
    then obtain a b where ab: "c # cs = a @ sub @ b" by blast
    show "str_includes (c # cs) sub"
    proof (cases a)
      case Nil
      with ab have "prefix sub (c # cs)" by (simp add: prefix_def)
      then show ?thesis by simp
    next
      case (Cons x a')
      with ab have "cs = a' @ sub @ b" by simp
      with Cons.IH have "str_includes cs sub" by blast
      then show ?thesis by simp
    qed
  qed
qed

lemma str_includes_append2: "str_includes t sub \<Longrightarrow> str_includes (a @ t) sub"
  unfolding str_includes_iff by (metis append.assoc)

lemma concludesMotion_append2: "concludesMotion t \<Longrightarrow> concludesMotion (a @ t)"
  by (simp add: concludesMotion_def str_includes_append2)

lemma final_sentences_conclude:
  \<open>concludesMotion ''". Using the provided image as the immediate previous frame, create the **absolute conclusion** of the motion. The action should be fully completed and settled.''\<close>
  by code_simp

lemma inlineFramePrompt_last:
  assumes "1 < frameCount"
  shows "concludesMotion (inlineFramePrompt motionPrompt frameCount frameCount)"
proof -
  have \<open>inlineFramePrompt motionPrompt frameCount frameCount =
          (styleInstruction @ '' This is the **final frame** of a '' @ Number_toString frameCount
             @ ''-frame animation of "'' @ motionPrompt)
          @ ''". Using the provided image as the immediate previous frame, create the **absolute conclusion** of the motion. The action should be fully completed and settled.''\<close>
    using assms by (simp add: inlineFramePrompt_def)
  then show ?thesis
    by (simp only: concludesMotion_append2 [OF final_sentences_conclude])
qed

section \<open>Whole runs\<close>

lemma frameCalls_append:
  "trace s' = trace s @ xs \<Longrightarrow>
   frameCalls s s' = filter (\<lambda>x. model (fst x) = ''gemini-2.5-flash-image'') xs"
  by (simp add: frameCalls_def newExchanges_def)

lemma filter_all: "\<forall>x \<in> set xs. Q x \<Longrightarrow> filter Q xs = xs"
  by (induction xs) auto

lemma animationCatch_Error: "\<exists>m. animationCatch e = Error m"
  by (cases e) (simp_all add: animationCatch_def)

lemma storyboardCatch_Error: "\<exists>m. storyboardCatch e = Error m"
  by (cases e) (simp_all add: storyboardCatch_def)

lemma getAI_Error: "getAI s = (Inl e, s0) \<Longrightarrow> \<exists>m. e = Error m"
  by (auto simp: getAI_def split: option.splits if_splits)

lemma generateStoryboard_trace:
  assumes "generateStoryboard h ai motionPrompt frameCount s = (r, s')"
  shows "\<exists>reply. trace s' = trace s @ [(storyboardRequest motionPrompt frameCount, reply)]
           \<and> aiInstance s' = aiInstance s \<and> API_KEY s' = API_KEY s
           \<and> r = (case reply of
                    Inl e \<Rightarrow> Inl (storyboardCatch e)
                  | Inr resp \<Rightarrow> (case readStoryboard h frameCount resp of
                                  Inl e \<Rightarrow> Inl (storyboardCatch e)
                                | Inr ds \<Rightarrow> Inr ds))"
proof -
  obtain reply w where m:
    "models_generateContent h ai (storyboardRequest motionPrompt frameCount) (world s) = (reply, w)"
    by (cases "models_generateContent h ai (storyboardRequest motionPrompt frameCount) (world s)")
  with assms show ?thesis
    by (intro exI [of _ reply])
       (auto simp: generateStoryboard_def generateContent_def split: sum.splits)
qed

lemma storyboardRequest_model [simp]:
  "model (storyboardRequest motionPrompt frameCount) = ''gemini-2.5-pro''"
  by (simp add: storyboardRequest_def)

text \<open>The shape of a run of the orchestrator that composes its prompts per frame.\<close>

lemma inline_run:
  assumes "generateAnimationFrames_inline h motionPrompt frameCount cb s = (r, s')"
  shows "\<exists>calls. trace s' = trace s @ calls
           \<and> frameCalls s s' = calls
           \<and> chain (inlineFramePrompt motionPrompt frameCount) 1 None calls
           \<and> (case r of
                 Inl e \<Rightarrow> \<exists>m. e = Error m
               | Inr fs \<Rightarrow> int (length calls) = max 0 frameCount
                           \<and> map producedFrame calls = map Some fs)"
proof -
  obtain g s0 where g: "getAI s = (g, s0)" by (cases "getAI s")
  note st = getAI_state [OF g]
  show ?thesis
  proof (cases g)
    case (Inl e)
    with assms g have "r = Inl e" "s' = s0"
      by (simp_all add: generateAnimationFrames_inline_def)
    with st getAI_Error [of s e s0] g Inl show ?thesis
      by (intro exI [of _ "[]"]) (simp add: frameCalls_append)
  next
    case (Inr ai)
    show ?thesis
    proof (cases "frameCount < 1")
      case True
      with assms g Inr have "r = Inr []" "s' = s0"
        by (simp_all add: generateAnimationFrames_inline_def)
      with st True show ?thesis
        by (intro exI [of _ "[]"]) (simp add: frameCalls_append)
    next
      case False
      let ?P = "inlineFramePrompt motionPrompt frameCount"
      obtain lr s1 where l: "inlineLoop h ai motionPrompt frameCount cb 1 None [] s0 = (lr, s1)"
        by (cases "inlineLoop h ai motionPrompt frameCount cb 1 None [] s0")
      have "loopSpec ?P (frameCount + 1 - 1) 1 None [] s0 (lr, s1)"
        using inlineLoop_spec [of motionPrompt frameCount 1 None "[]" s0 h ai cb] l by simp
      then obtain calls where c: "trace s1 = trace s0 @ calls" "chain ?P 1 None calls"
        "\<forall>c \<in> set calls. model (fst c) = ''gemini-2.5-flash-image''"
        and c4: "case lr of Inl e \<Rightarrow> True
         | Inr fs \<Rightarrow> int (length calls) = max 0 (frameCount + 1 - 1)
              \<and> map producedFrame calls = map Some (drop (length ([]::string list)) fs)
              \<and> take (length ([]::string list)) fs = []"
        unfolding loopSpec_def fst_conv snd_conv by blast
      have tr: "trace s' = trace s @ calls"
        using assms g Inr False l c(1) st
        by (cases lr) (auto simp: generateAnimationFrames_inline_def)
      have fc: "frameCalls s s' = calls"
        using frameCalls_append [OF tr] filter_all [OF c(3)] by simp
      have res: "case r of Inl e \<Rightarrow> \<exists>m. e = Error m
               | Inr fs \<Rightarrow> int (length calls) = max 0 frameCount
                           \<and> map producedFrame calls = map Some fs"
        using assms g Inr False l c4 animationCatch_Error
        by (cases lr) (auto simp: generateAnimationFrames_inline_def)
      from tr fc c(2) res show ?thesis by blast
    qed
  qed
qed

text \<open>The shape of a run of the orchestrator that follows a storyboard.\<close>

lemma storyboard_run:
  assumes "generateAnimationFrames h motionPrompt frameCount cb s = (r, s')"
  shows "\<exists>calls sb. frameCalls s s' = calls
           \<and> chain (storyboardFramePrompt frameCount sb) 0 None calls
           \<and> (case r of
                 Inl e \<Rightarrow> \<exists>m. e = Error m
               | Inr fs \<Rightarrow> int (length calls) = max 0 frameCount
                           \<and> map producedFrame calls = map Some fs)"
proof -
  obtain g s0 where g: "getAI s = (g, s0)" by (cases "getAI s")
  note st = getAI_state [OF g]
  show ?thesis
  proof (cases g)
    case (Inl e)
    with assms g have "r = Inl e" "s' = s0"
      by (simp_all add: generateAnimationFrames_def)
    with st getAI_Error [of s e s0] g Inl show ?thesis
      by (intro exI [of _ "[]"]) (simp add: frameCalls_append)
  next
    case (Inr ai)
    show ?thesis
    proof (cases "frameCount < 1")
      case True
      with assms g Inr have "r = Inr []" "s' = s0"
        by (simp_all add: generateAnimationFrames_def)
      with st True show ?thesis
        by (intro exI [of _ "[]"]) (simp add: frameCalls_append)
    next
      case False
      let ?s0 = "report cb ''Analyzing motion and creating storyboard...'' s0"
      obtain pr s1 where p: "generateStoryboard h ai motionPrompt frameCount ?s0 = (pr, s1)"
        by (cases "generateStoryboard h ai motionPrompt frameCount ?s0")
      from generateStoryboard_trace [OF p] obtain reply where
        t1: "trace s1 = trace s @ [(storyboardRequest motionPrompt frameCount, reply)]"
        using st by auto
      show ?thesis
      proof (cases pr)
        case (Inl e)
        with assms g Inr False p have "r = Inl (animationCatch e)" "s' = s1"
          by (simp_all add: generateAnimationFrames_def)
        with t1 animationCatch_Error [of e] show ?thesis
          by (intro exI [of _ "[]"]) (auto simp: frameCalls_append)
      next
        case (Inr sb)
        let ?P = "storyboardFramePrompt frameCount sb"
        let ?s1 = "report cb ''Storyboard created. Starting frame generation...'' s1"
        obtain lr s2 where l: "storyboardLoop h ai frameCount cb sb 0 None [] ?s1 = (lr, s2)"
          by (cases "storyboardLoop h ai frameCount cb sb 0 None [] ?s1")
        have "loopSpec ?P (frameCount - 0) 0 None [] ?s1 (lr, s2)"
          using storyboardLoop_spec [of frameCount sb 0 None "[]" ?s1 h ai cb] l by simp
        then obtain calls where c: "trace s2 = trace ?s1 @ calls" "chain ?P 0 None calls"
          "\<forall>c \<in> set calls. model (fst c) = ''gemini-2.5-flash-image''"
          and c4: "case lr of Inl e \<Rightarrow> True
           | Inr fs \<Rightarrow> int (length calls) = max 0 (frameCount - 0)
                \<and> map producedFrame calls = map Some (drop (length ([]::string list)) fs)
                \<and> take (length ([]::string list)) fs = []"
          unfolding loopSpec_def fst_conv snd_conv by blast
        have tr: "trace s' = trace s @ (storyboardRequest motionPrompt frameCount, reply) # calls"
          using assms g \<open>g = Inr ai\<close> False p Inr l c(1) t1
          by (cases lr) (auto simp: generateAnimationFrames_def)
        have fc: "frameCalls s s' = calls"
          using frameCalls_append [OF tr] filter_all [OF c(3)] by simp
        have res: "case r of Inl e \<Rightarrow> \<exists>m. e = Error m
                 | Inr fs \<Rightarrow> int (length calls) = max 0 frameCount
                             \<and> map producedFrame calls = map Some fs"
          using assms g \<open>g = Inr ai\<close> False p Inr l c4 animationCatch_Error
          by (cases lr) (auto simp: generateAnimationFrames_def)
        from fc c(2) res show ?thesis by blast
      qed
    qed
  qed
qed


section \<open>The claims about the orchestrators\<close>



lemma demo_inline_3:
  "fst (generateAnimationFrames_inline (demoHost JNull) ''jump'' 3 None ready) =
     Inr [''data:image/png;base64,F0'', ''data:image/png;base64,F1'', ''data:image/png;base64,F2'']"
  by code_simp

lemma demo_storyboard_2:
  "fst (generateAnimationFrames (demoHost (plan [''rise'', ''fall''])) ''jump'' 2 None ready) =
     Inr [''data:image/png;base64,F1'', ''data:image/png;base64,F2'']"
  by code_simp



text \<open>
  C3.  For every frame count of at least 1, a run of either orchestrator ends in one of two
  ways: it rejects with an Error, or it resolves with a list of exactly that many frames.
  Both functions are total, so one of the two always happens.
\<close>

theorem frame_count_is_exact:
  assumes "1 \<le> frameCount"
    and "run = generateAnimationFrames h motionPrompt frameCount cb s
         \<or> run = generateAnimationFrames_inline h motionPrompt frameCount cb s"
  shows "(\<exists>m. fst run = Inl (Error m))
         \<or> (\<exists>fs. fst run = Inr fs \<and> int (length fs) = frameCount)"
proof -
  obtain r s' where rs: "run = (r, s')" by (cases run)
  have shape: "\<exists>calls. (case r of
                 Inl e \<Rightarrow> \<exists>m. e = Error m
               | Inr fs \<Rightarrow> int (length calls) = max 0 frameCount
                           \<and> map producedFrame calls = map Some fs)"
    using assms(2)
  proof
    assume "run = generateAnimationFrames h motionPrompt frameCount cb s"
    with rs have "generateAnimationFrames h motionPrompt frameCount cb s = (r, s')" by simp
    from storyboard_run [OF this] show ?thesis by blast
  next
    assume "run = generateAnimationFrames_inline h motionPrompt frameCount cb s"
    with rs have "generateAnimationFrames_inline h motionPrompt frameCount cb s = (r, s')" by simp
    from inline_run [OF this] show ?thesis by blast
  qed
  show ?thesis
  proof (cases r)
    case (Inl e)
    with shape rs show ?thesis by auto
  next
    case (Inr fs)
    with shape obtain calls where "int (length calls) = max 0 frameCount"
      "map producedFrame calls = map Some fs" by auto
    then have "int (length fs) = max 0 frameCount" by (metis length_map)
    with assms(1) Inr rs show ?thesis by simp
  qed
qed

theorem frame_count_is_exact_witness:
  "(1::int) \<le> 3
   \<and> (\<exists>fs. fst (generateAnimationFrames_inline (demoHost JNull) ''jump'' 3 None ready) = Inr fs
          \<and> int (length fs) = 3)
   \<and> (\<exists>fs. fst (generateAnimationFrames (demoHost (plan [''rise'', ''fall''])) ''jump'' 2 None ready) = Inr fs
          \<and> int (length fs) = 2)"
proof -
  have three: "(1::int) \<le> 3" and two: "(1::int) \<le> 2" by simp_all
  show ?thesis
    using frame_count_is_exact [OF three disjI2 [OF refl], of "demoHost JNull" "''jump''" None ready]
      frame_count_is_exact [OF two disjI1 [OF refl],
        of "demoHost (plan [''rise'', ''fall''])" "''jump''" None ready]
      demo_inline_3 demo_storyboard_2
    by simp
qed

lemma chain_last:
  assumes "chain P i None calls" "2 \<le> length calls"
  shows "promptTexts (fst (last calls)) = [P (i + int (length calls) - 1)]"
    and "attachesPrevious calls"
proof -
  let ?k = "length calls - 1"
  from assms(2) have k: "?k < length calls" "?k \<noteq> 0" "calls \<noteq> []" by auto
  then have l: "last calls = calls ! ?k" by (simp add: last_conv_nth)
  from chain_nth [OF assms(1) k(1)] k(2) obtain ps f where ps:
    "fst (calls ! ?k) = frameRequest ps (P (i + int ?k))"
    "producedFrame (calls ! (?k - 1)) = Some f" "referenceParts (Some f) = Inr ps"
    by auto
  from referenceParts_frame [OF ps(2,3)] have r:
    "ps = [referencePart f]"
    "\<forall>p \<in> set ps. inlineData p \<noteq> None" "\<forall>p \<in> set ps. text_of p = None"
    by auto
  have i: "i + int ?k = i + int (length calls) - 1" using assms(2) by simp
  show "promptTexts (fst (last calls)) = [P (i + int (length calls) - 1)]"
    using l ps(1) r(3) i by (simp add: promptTexts_frameRequest algebra_simps)
  have "?k - 1 = length calls - 2" by simp
  with ps(2) have "producedFrame (calls ! (length calls - 2)) = Some f" by simp
  moreover have "attachedImages (fst (last calls)) = [referencePart f]"
    using l ps(1) r(1,2) by (simp add: attachedImages_frameRequest)
  moreover obtain d where "returnedData (calls ! (length calls - 2)) = Some d"
    "f = ''data:image/png;base64,'' @ d"
    using calculation(1) unfolding producedFrame_returnedData by auto
  ultimately show "attachesPrevious calls" by (simp add: attachesPrevious_def)
qed

lemma frameDescription_descriptionOf:
  "frameDescription entry = Inr d \<Longrightarrow> descriptionOf entry = Some d"
  by (cases entry)
     (auto simp: frameDescription_def descriptionOf_def
           split: option.splits json.splits if_splits)

lemma frameDescriptions_descriptionOf:
  "frameDescriptions entries = Inr ds \<Longrightarrow> map descriptionOf entries = map Some ds"
  by (induction entries arbitrary: ds)
     (auto split: sum.splits dest: frameDescription_descriptionOf)

lemma readStoryboard_descriptions:
  assumes "readStoryboard h frameCount resp = Inr sb"
  shows "int (length sb) = frameCount"
    and "\<forall>t kvs entries. response_text resp = Some t \<and> JSON_parse h (trim t) = Inr (JObject kvs)
           \<and> map_of kvs ''storyboard'' = Some (JArray entries)
           \<longrightarrow> map descriptionOf entries = map Some sb"
proof -
  from assms obtain t parsed entries where e:
    "response_text resp = Some t" "JSON_parse h (trim t) = Inr parsed"
    "get_property (Some parsed) ''storyboard'' = Inr (Some (JArray entries))"
    "int (length entries) = frameCount" "frameDescriptions entries = Inr sb"
    by (auto simp: readStoryboard_def split: option.splits sum.splits json.splits if_splits)
  from frameDescriptions_descriptionOf [OF e(5)] have m: "map descriptionOf entries = map Some sb" .
  then have "length entries = length sb" by (metis length_map)
  with e(4) show "int (length sb) = frameCount" by simp
  show "\<forall>t kvs entries. response_text resp = Some t \<and> JSON_parse h (trim t) = Inr (JObject kvs)
           \<and> map_of kvs ''storyboard'' = Some (JArray entries)
           \<longrightarrow> map descriptionOf entries = map Some sb"
    using e m by auto
qed

lemma storyboardFramePrompt_later:
  assumes "0 < i" "nat i < length sb"
  shows \<open>storyboardFramePrompt frameCount sb i =
           styleInstruction @ '' This is frame '' @ Number_toString (i + 1) @ '' of a ''
             @ Number_toString frameCount
             @ ''-frame animation. Using the provided image as the immediate previous frame, generate the very next logical step in the action. The precise instruction for this frame is: "''
             @ sb ! nat i
             @ ''". Ensure the transition is smooth and physically plausible.''\<close>
  using assms by (simp add: storyboardFramePrompt_def Let_def)

lemma storyboard_run_frames:
  assumes "generateAnimationFrames h motionPrompt frameCount cb s = (r, s')"
    and "frameCalls s s' \<noteq> []"
  shows "\<exists>resp sb. newExchanges s s' = (storyboardRequest motionPrompt frameCount, Inr resp) # frameCalls s s'
           \<and> readStoryboard h frameCount resp = Inr sb
           \<and> chain (storyboardFramePrompt frameCount sb) 0 None (frameCalls s s')"
proof -
  obtain g s0 where g: "getAI s = (g, s0)" by (cases "getAI s")
  note st = getAI_state [OF g]
  show ?thesis
  proof (cases g)
    case (Inl e)
    with assms(1) g have "s' = s0" by (simp add: generateAnimationFrames_def)
    with st assms(2) show ?thesis by (simp add: frameCalls_def newExchanges_def)
  next
    case (Inr ai)
    show ?thesis
    proof (cases "frameCount < 1")
      case True
      with assms(1) g Inr have "s' = s0" by (simp add: generateAnimationFrames_def)
      with st assms(2) show ?thesis by (simp add: frameCalls_def newExchanges_def)
    next
      case False
      let ?s0 = "report cb ''Analyzing motion and creating storyboard...'' s0"
      obtain pr s1 where p: "generateStoryboard h ai motionPrompt frameCount ?s0 = (pr, s1)"
        by (cases "generateStoryboard h ai motionPrompt frameCount ?s0")
      from generateStoryboard_trace [OF p] obtain reply where
        t1: "trace s1 = trace s @ [(storyboardRequest motionPrompt frameCount, reply)]"
        and pr: "pr = (case reply of
                    Inl e \<Rightarrow> Inl (storyboardCatch e)
                  | Inr resp \<Rightarrow> (case readStoryboard h frameCount resp of
                                  Inl e \<Rightarrow> Inl (storyboardCatch e)
                                | Inr ds \<Rightarrow> Inr ds))"
        using st by auto
      show ?thesis
      proof (cases pr)
        case (Inl e)
        with assms(1) g Inr False p have "s' = s1"
          by (simp add: generateAnimationFrames_def)
        with t1 assms(2) show ?thesis by (simp add: frameCalls_def newExchanges_def)
      next
        case (Inr sb)
        with pr obtain resp where ok: "reply = Inr resp" "readStoryboard h frameCount resp = Inr sb"
          by (auto split: sum.splits)
        let ?s1 = "report cb ''Storyboard created. Starting frame generation...'' s1"
        obtain lr s2 where l: "storyboardLoop h ai frameCount cb sb 0 None [] ?s1 = (lr, s2)"
          by (cases "storyboardLoop h ai frameCount cb sb 0 None [] ?s1")
        have "loopSpec (storyboardFramePrompt frameCount sb) (frameCount - 0) 0 None [] ?s1 (lr, s2)"
          using storyboardLoop_spec [of frameCount sb 0 None "[]" ?s1 h ai cb] l by simp
        then obtain calls where c: "trace s2 = trace ?s1 @ calls"
          "chain (storyboardFramePrompt frameCount sb) 0 None calls"
          "\<forall>c \<in> set calls. model (fst c) = ''gemini-2.5-flash-image''"
          unfolding loopSpec_def fst_conv snd_conv by blast
        have tr: "trace s' = trace s @ (storyboardRequest motionPrompt frameCount, reply) # calls"
          using assms(1) g \<open>g = Inr ai\<close> False p Inr l c(1) t1
          by (cases lr) (auto simp: generateAnimationFrames_def)
        have fc: "frameCalls s s' = calls"
          using frameCalls_append [OF tr] filter_all [OF c(3)] by simp
        have "newExchanges s s' = (storyboardRequest motionPrompt frameCount, reply) # calls"
          using tr by (simp add: newExchanges_def)
        with fc c(2) ok show ?thesis by auto
      qed
    qed
  qed
qed

text \<open>
  C4, amended.  For every frame count above 1: the orchestrator that composes its prompts per
  frame gives the last frame a prompt that tells the model to create the conclusion of the
  motion, completed and settled.  In a run of either orchestrator that gets as far as the
  call for the last frame, that call attaches one image and no more: of type image/png, with
  the data of the frame the call before it produced (up to a comma, if that data has one).
  In the orchestrator that composes its prompts per frame the call carries the concluding
  prompt; in the one that follows a storyboard it carries the wording of every later frame,
  which asks for the very next step of the action, around the description that the
  planner's storyboard holds for the last frame.  Every successful run gets that far.
\<close>

theorem last_frame_concludes_and_references:
  assumes "1 < frameCount"
  shows \<open>concludesMotion (inlineFramePrompt motionPrompt frameCount frameCount)
    \<and> (generateAnimationFrames_inline h motionPrompt frameCount cb s = (r, s')
         \<and> length (frameCalls s s') = nat frameCount \<longrightarrow>
           promptTexts (fst (last (frameCalls s s'))) = [inlineFramePrompt motionPrompt frameCount frameCount]
           \<and> attachesPrevious (frameCalls s s'))
    \<and> (generateAnimationFrames h motionPrompt frameCount cb s = (r, s')
         \<and> length (frameCalls s s') = nat frameCount \<longrightarrow>
           attachesPrevious (frameCalls s s')
           \<and> (\<exists>resp sb.
                 hd (newExchanges s s') = (storyboardRequest motionPrompt frameCount, Inr resp)
                 \<and> length sb = nat frameCount
                 \<and> (\<forall>t kvs entries. response_text resp = Some t
                        \<and> JSON_parse h (trim t) = Inr (JObject kvs)
                        \<and> map_of kvs ''storyboard'' = Some (JArray entries)
                        \<longrightarrow> map descriptionOf entries = map Some sb)
                 \<and> promptTexts (fst (last (frameCalls s s'))) =
                     [styleInstruction @ '' This is frame '' @ Number_toString frameCount @ '' of a ''
                        @ Number_toString frameCount
                        @ ''-frame animation. Using the provided image as the immediate previous frame, generate the very next logical step in the action. The precise instruction for this frame is: "''
                        @ sb ! (nat frameCount - 1)
                        @ ''". Ensure the transition is smooth and physically plausible.'']))
    \<and> ((generateAnimationFrames_inline h motionPrompt frameCount cb s = (Inr fs, s')
          \<or> generateAnimationFrames h motionPrompt frameCount cb s = (Inr fs, s')) \<longrightarrow>
           length (frameCalls s s') = nat frameCount)\<close>
proof -
  have 1: "concludesMotion (inlineFramePrompt motionPrompt frameCount frameCount)"
    using assms by (rule inlineFramePrompt_last)
  have 2: "promptTexts (fst (last (frameCalls s s'))) = [inlineFramePrompt motionPrompt frameCount frameCount]
           \<and> attachesPrevious (frameCalls s s')"
    if run: "generateAnimationFrames_inline h motionPrompt frameCount cb s = (r, s')
             \<and> length (frameCalls s s') = nat frameCount"
  proof -
    from inline_run [of h motionPrompt frameCount cb s r s'] run have c:
      "chain (inlineFramePrompt motionPrompt frameCount) 1 None (frameCalls s s')"
      by auto
    from run assms have n: "2 \<le> length (frameCalls s s')" by simp
    from assms have "1 + int (nat frameCount) - 1 = frameCount" by simp
    with chain_last(1) [OF c n] run chain_last(2) [OF c n] show ?thesis by simp
  qed
  have 3: \<open>attachesPrevious (frameCalls s s')
           \<and> (\<exists>resp sb.
                 hd (newExchanges s s') = (storyboardRequest motionPrompt frameCount, Inr resp)
                 \<and> length sb = nat frameCount
                 \<and> (\<forall>t kvs entries. response_text resp = Some t
                        \<and> JSON_parse h (trim t) = Inr (JObject kvs)
                        \<and> map_of kvs ''storyboard'' = Some (JArray entries)
                        \<longrightarrow> map descriptionOf entries = map Some sb)
                 \<and> promptTexts (fst (last (frameCalls s s'))) =
                     [styleInstruction @ '' This is frame '' @ Number_toString frameCount @ '' of a ''
                        @ Number_toString frameCount
                        @ ''-frame animation. Using the provided image as the immediate previous frame, generate the very next logical step in the action. The precise instruction for this frame is: "''
                        @ sb ! (nat frameCount - 1)
                        @ ''". Ensure the transition is smooth and physically plausible.''])\<close>
    if run: "generateAnimationFrames h motionPrompt frameCount cb s = (r, s')
             \<and> length (frameCalls s s') = nat frameCount"
  proof -
    from run assms have n: "2 \<le> length (frameCalls s s')" by simp
    then have ne: "frameCalls s s' \<noteq> []" by auto
    from storyboard_run_frames [OF conjunct1 [OF run] ne] obtain resp sb where c:
      "newExchanges s s' = (storyboardRequest motionPrompt frameCount, Inr resp) # frameCalls s s'"
      "readStoryboard h frameCount resp = Inr sb"
      "chain (storyboardFramePrompt frameCount sb) 0 None (frameCalls s s')"
      by blast
    note d = readStoryboard_descriptions [OF c(2)]
    from d(1) assms have len: "length sb = nat frameCount" by simp
    have idx: "0 + int (length (frameCalls s s')) - 1 = frameCount - 1" using run assms by simp
    have "promptTexts (fst (last (frameCalls s s'))) = [storyboardFramePrompt frameCount sb (frameCount - 1)]"
      using chain_last(1) [OF c(3) n] idx by simp
    moreover have "nat (frameCount - 1) = nat frameCount - 1" using assms by simp
    moreover have "0 < frameCount - 1" "nat (frameCount - 1) < length sb" using assms len by simp_all
    ultimately have p: \<open>promptTexts (fst (last (frameCalls s s'))) =
                     [styleInstruction @ '' This is frame '' @ Number_toString frameCount @ '' of a ''
                        @ Number_toString frameCount
                        @ ''-frame animation. Using the provided image as the immediate previous frame, generate the very next logical step in the action. The precise instruction for this frame is: "''
                        @ sb ! (nat frameCount - 1)
                        @ ''". Ensure the transition is smooth and physically plausible.'']\<close>
      using storyboardFramePrompt_later [of "frameCount - 1" sb frameCount] by simp
    have h: "hd (newExchanges s s') = (storyboardRequest motionPrompt frameCount, Inr resp)"
      using c(1) by simp
    from chain_last(2) [OF c(3) n] h len d(2) p show ?thesis by blast
  qed
  have 4: "length (frameCalls s s') = nat frameCount"
    if "generateAnimationFrames_inline h motionPrompt frameCount cb s = (Inr fs, s')
          \<or> generateAnimationFrames h motionPrompt frameCount cb s = (Inr fs, s')"
  proof -
    from that have "int (length (frameCalls s s')) = max 0 frameCount"
      using inline_run [of h motionPrompt frameCount cb s "Inr fs" s']
        storyboard_run [of h motionPrompt frameCount cb s "Inr fs" s']
      by auto
    then show ?thesis by simp
  qed
  from 1 2 3 4 show ?thesis by blast
qed

lemma demo_inline_3_calls:
  "length (frameCalls ready (snd (generateAnimationFrames_inline (demoHost JNull) ''jump'' 3 None ready)))
     = 3"
  by code_simp

lemma demo_inline_3_attached:
  "attachedImages (fst (last (frameCalls ready
     (snd (generateAnimationFrames_inline (demoHost JNull) ''jump'' 3 None ready)))))
   = [pngPart ''F1'']"
  by code_simp

lemma demo_storyboard_2_calls:
  "length (frameCalls ready
     (snd (generateAnimationFrames (demoHost (plan [''rise'', ''fall''])) ''jump'' 2 None ready))) = 2"
  by code_simp

theorem last_frame_concludes_and_references_witness:
  "(1::int) < 3
   \<and> concludesMotion (inlineFramePrompt ''jump'' 3 3)
   \<and> promptTexts (fst (last (frameCalls ready
        (snd (generateAnimationFrames_inline (demoHost JNull) ''jump'' 3 None ready)))))
       = [inlineFramePrompt ''jump'' 3 3]
   \<and> attachesPrevious (frameCalls ready
        (snd (generateAnimationFrames_inline (demoHost JNull) ''jump'' 3 None ready)))
   \<and> attachedImages (fst (last (frameCalls ready
        (snd (generateAnimationFrames_inline (demoHost JNull) ''jump'' 3 None ready)))))
       = [pngPart ''F1'']
   \<and> attachesPrevious (frameCalls ready
        (snd (generateAnimationFrames (demoHost (plan [''rise'', ''fall''])) ''jump'' 2 None ready)))"
proof -
  let ?run = "generateAnimationFrames_inline (demoHost JNull) ''jump'' 3 None ready"
  let ?sun = "generateAnimationFrames (demoHost (plan [''rise'', ''fall''])) ''jump'' 2 None ready"
  have three: "(1::int) < 3" and two: "(1::int) < 2" by simp_all
  have a: "?run = (fst ?run, snd ?run)" and b: "?sun = (fst ?sun, snd ?sun)" by simp_all
  have n: "length (frameCalls ready (snd ?run)) = nat 3"
    using demo_inline_3_calls by simp
  have m: "length (frameCalls ready (snd ?sun)) = nat 2"
    using demo_storyboard_2_calls by simp
  from last_frame_concludes_and_references [OF three, where motionPrompt = "''jump''"
        and h = "demoHost JNull" and cb = None and s = ready
        and r = "fst ?run" and s' = "snd ?run"]
      last_frame_concludes_and_references [OF two, where motionPrompt = "''jump''"
        and h = "demoHost (plan [''rise'', ''fall''])" and cb = None and s = ready
        and r = "fst ?sun" and s' = "snd ?sun"]
      a b n m demo_inline_3_attached
  show ?thesis by simp
qed

text \<open>
  C4, as stated, fails for the orchestrator that follows a storyboard: with two frames the
  prompt of the last call is the one every frame after the first gets, and it asks for
  the next step of the action, not for its conclusion.
\<close>

theorem last_frame_concludes_counterexample:
  \<open>fst (generateAnimationFrames (demoHost (plan [''rise'', ''fall''])) ''jump'' 2 None ready) =
     Inr [''data:image/png;base64,F1'', ''data:image/png;base64,F2'']
   \<and> promptTexts (fst (last (frameCalls ready
        (snd (generateAnimationFrames (demoHost (plan [''rise'', ''fall''])) ''jump'' 2 None ready)))))
       = [''Style: A raw, sketchy anime keyframe (genga). Emphasize dynamic, messy pencil lines and visible construction lines, capturing an energetic, in-progress feel. Plain white background. This is frame 2 of a 2-frame animation. Using the provided image as the immediate previous frame, generate the very next logical step in the action. The precise instruction for this frame is: "fall". Ensure the transition is smooth and physically plausible.'']
   \<and> \<not> concludesMotion ''Style: A raw, sketchy anime keyframe (genga). Emphasize dynamic, messy pencil lines and visible construction lines, capturing an energetic, in-progress feel. Plain white background. This is frame 2 of a 2-frame animation. Using the provided image as the immediate previous frame, generate the very next logical step in the action. The precise instruction for this frame is: "fall". Ensure the transition is smooth and physically plausible.''
   \<and> \<not> str_includes ''Style: A raw, sketchy anime keyframe (genga). Emphasize dynamic, messy pencil lines and visible construction lines, capturing an energetic, in-progress feel. Plain white background. This is frame 2 of a 2-frame animation. Using the provided image as the immediate previous frame, generate the very next logical step in the action. The precise instruction for this frame is: "fall". Ensure the transition is smooth and physically plausible.'' ''conclu''
   \<and> \<not> str_includes ''Style: A raw, sketchy anime keyframe (genga). Emphasize dynamic, messy pencil lines and visible construction lines, capturing an energetic, in-progress feel. Plain white background. This is frame 2 of a 2-frame animation. Using the provided image as the immediate previous frame, generate the very next logical step in the action. The precise instruction for this frame is: "fall". Ensure the transition is smooth and physically plausible.'' ''settle''\<close>
  by code_simp

section \<open>The claims about the storyboard planner\<close>

lemma frameDescription_valid: "frameDescription entry = Inr d \<Longrightarrow> validDescription entry"
  by (cases entry)
     (auto simp: frameDescription_def validDescription_def
           split: option.splits json.splits if_splits)

lemma frameDescriptions_valid:
  "frameDescriptions entries = Inr ds \<Longrightarrow> \<forall>entry \<in> set entries. validDescription entry"
  by (induction entries arbitrary: ds)
     (auto split: sum.splits dest: frameDescription_valid)

lemma readStoryboard_valid:
  assumes "readStoryboard h frameCount resp = Inr sb"
    and "response_text resp = Some t" and "JSON_parse h (trim t) = Inr (JObject kvs)"
    and "map_of kvs ''storyboard'' = Some (JArray entries)"
  shows "\<forall>entry \<in> set entries. validDescription entry"
  using assms
  by (auto simp: readStoryboard_def split: if_splits dest: frameDescriptions_valid)

lemma storyboard_run_planner:
  assumes "generateAnimationFrames h motionPrompt frameCount cb s = (r, s')"
  shows "newExchanges s s' = [] \<or>
         (\<exists>reply calls. newExchanges s s' = (storyboardRequest motionPrompt frameCount, reply) # calls
            \<and> (\<forall>c \<in> set calls. model (fst c) = ''gemini-2.5-flash-image'')
            \<and> ((\<forall>resp. reply = Inr resp \<longrightarrow> (\<forall>sb. readStoryboard h frameCount resp \<noteq> Inr sb))
                 \<longrightarrow> calls = [] \<and> (\<exists>m. r = Inl (Error m)))
            \<and> (\<forall>resp e. reply = Inr resp \<and> readStoryboard h frameCount resp = Inl e
                 \<longrightarrow> r = Inl (animationCatch (storyboardCatch e))))"
proof -
  obtain g s0 where g: "getAI s = (g, s0)" by (cases "getAI s")
  note st = getAI_state [OF g]
  show ?thesis
  proof (cases g)
    case (Inl e)
    with assms g have "s' = s0" by (simp add: generateAnimationFrames_def)
    with st show ?thesis by (simp add: newExchanges_def)
  next
    case (Inr ai)
    show ?thesis
    proof (cases "frameCount < 1")
      case True
      with assms g Inr have "s' = s0" by (simp add: generateAnimationFrames_def)
      with st show ?thesis by (simp add: newExchanges_def)
    next
      case False
      let ?s0 = "report cb ''Analyzing motion and creating storyboard...'' s0"
      obtain pr s1 where p: "generateStoryboard h ai motionPrompt frameCount ?s0 = (pr, s1)"
        by (cases "generateStoryboard h ai motionPrompt frameCount ?s0")
      from generateStoryboard_trace [OF p] obtain reply where
        t1: "trace s1 = trace s @ [(storyboardRequest motionPrompt frameCount, reply)]"
        and pr: "pr = (case reply of
                    Inl e \<Rightarrow> Inl (storyboardCatch e)
                  | Inr resp \<Rightarrow> (case readStoryboard h frameCount resp of
                                  Inl e \<Rightarrow> Inl (storyboardCatch e)
                                | Inr ds \<Rightarrow> Inr ds))"
        using st by auto
      show ?thesis
      proof (cases pr)
        case (Inl e)
        with assms g Inr False p have "r = Inl (animationCatch e)" "s' = s1"
          by (simp_all add: generateAnimationFrames_def)
        with t1 animationCatch_Error [of e] have
          "newExchanges s s' = (storyboardRequest motionPrompt frameCount, reply) # []"
          "\<exists>m. r = Inl (Error m)"
          by (auto simp: newExchanges_def)
        moreover have "r = Inl (animationCatch (storyboardCatch e'))"
          if "reply = Inr resp" "readStoryboard h frameCount resp = Inl e'" for resp e'
          using that pr Inl \<open>r = Inl (animationCatch e)\<close> by simp
        ultimately show ?thesis by auto
      next
        case (Inr sb)
        with pr obtain resp where ok: "reply = Inr resp" "readStoryboard h frameCount resp = Inr sb"
          by (auto split: sum.splits)
        let ?s1 = "report cb ''Storyboard created. Starting frame generation...'' s1"
        obtain lr s2 where l: "storyboardLoop h ai frameCount cb sb 0 None [] ?s1 = (lr, s2)"
          by (cases "storyboardLoop h ai frameCount cb sb 0 None [] ?s1")
        have "loopSpec (storyboardFramePrompt frameCount sb) (frameCount - 0) 0 None [] ?s1 (lr, s2)"
          using storyboardLoop_spec [of frameCount sb 0 None "[]" ?s1 h ai cb] l by simp
        then obtain calls where c: "trace s2 = trace ?s1 @ calls"
          "\<forall>c \<in> set calls. model (fst c) = ''gemini-2.5-flash-image''"
          unfolding loopSpec_def fst_conv snd_conv by blast
        have "trace s' = trace s @ (storyboardRequest motionPrompt frameCount, reply) # calls"
          using assms g \<open>g = Inr ai\<close> False p Inr l c(1) t1
          by (cases lr) (auto simp: generateAnimationFrames_def)
        then have "newExchanges s s' = (storyboardRequest motionPrompt frameCount, reply) # calls"
          by (simp add: newExchanges_def)
        with c(2) ok show ?thesis by auto
      qed
    qed
  qed
qed

text \<open>
  C6.  In a run of the storyboard-driven orchestrator, if the planner's answer parses to an
  object whose storyboard is an array with an entry whose frame description is missing, empty
  or not a string, the run rejects with an Error and no call for an image has been made.
\<close>

theorem invalid_description_stops_run:
  assumes "generateAnimationFrames h motionPrompt frameCount cb s = (r, s')"
    and "(req, Inr resp) \<in> set (newExchanges s s')" and "model req = ''gemini-2.5-pro''"
    and "response_text resp = Some t" and "JSON_parse h (trim t) = Inr (JObject kvs)"
    and "map_of kvs ''storyboard'' = Some (JArray entries)"
    and "entry \<in> set entries" and "\<not> validDescription entry"
  shows "(\<exists>m. r = Inl (Error m)) \<and> frameCalls s s' = []"
proof -
  from storyboard_run_planner [OF assms(1)] assms(2)
  obtain reply calls where n:
    "newExchanges s s' = (storyboardRequest motionPrompt frameCount, reply) # calls"
    "\<forall>c \<in> set calls. model (fst c) = ''gemini-2.5-flash-image''"
    "(\<forall>resp. reply = Inr resp \<longrightarrow> (\<forall>sb. readStoryboard h frameCount resp \<noteq> Inr sb))
       \<longrightarrow> calls = [] \<and> (\<exists>m. r = Inl (Error m))"
    by auto
  have "(req, Inr resp) \<notin> set calls"
    using n(2) assms(3) by auto
  with assms(2) n(1) have reply: "reply = Inr resp" by auto
  have "readStoryboard h frameCount resp \<noteq> Inr sb" for sb
    using readStoryboard_valid [OF _ assms(4,5,6)] assms(7,8) by blast
  with n(3) reply have "calls = []" "\<exists>m. r = Inl (Error m)" by auto
  with n(1) show ?thesis by (simp add: frameCalls_def)
qed

lemma demo_empty_description:
  "fst (generateAnimationFrames (demoHost (plan [''rise'', ''''])) ''jump'' 2 None ready) =
     Inl (Error ''Failed to generate animation: Failed to generate animation storyboard. The planning AI may be experiencing issues.'')"
  by code_simp

lemma demo_empty_description_exchange:
  "newExchanges ready (snd (generateAnimationFrames (demoHost (plan [''rise'', ''''])) ''jump'' 2 None ready))
     = [(storyboardRequest ''jump'' 2, Inr \<lparr>candidates = [], response_text = Some ''{}''\<rparr>)]"
  by code_simp

theorem invalid_description_stops_run_witness:
  "\<not> validDescription (storyboardEntry '''')
   \<and> (\<exists>m. fst (generateAnimationFrames (demoHost (plan [''rise'', ''''])) ''jump'' 2 None ready)
            = Inl (Error m))
   \<and> frameCalls ready
        (snd (generateAnimationFrames (demoHost (plan [''rise'', ''''])) ''jump'' 2 None ready)) = []"
proof -
  let ?run = "generateAnimationFrames (demoHost (plan [''rise'', ''''])) ''jump'' 2 None ready"
  have 1: "?run = (fst ?run, snd ?run)" by simp
  have 2: "(storyboardRequest ''jump'' 2, Inr \<lparr>candidates = [], response_text = Some ''{}''\<rparr>)
             \<in> set (newExchanges ready (snd ?run))"
    by (simp add: demo_empty_description_exchange)
  have 3: "model (storyboardRequest ''jump'' 2) = ''gemini-2.5-pro''" by simp
  have 4: "response_text \<lparr>candidates = [], response_text = Some ''{}''\<rparr> = Some ''{}''" by simp
  have 5: "JSON_parse (demoHost (plan [''rise'', ''''])) (trim ''{}'')
             = Inr (JObject [(''storyboard'', JArray (map storyboardEntry [''rise'', '''']))])"
    by (simp add: demoHost_def plan_def)
  have 6: "map_of [(''storyboard'', JArray (map storyboardEntry [''rise'', '''']))] ''storyboard''
             = Some (JArray (map storyboardEntry [''rise'', '''']))" by simp
  have 7: "storyboardEntry '''' \<in> set (map storyboardEntry [''rise'', ''''])" by simp
  have 8: "\<not> validDescription (storyboardEntry '''')"
    by (simp add: validDescription_def storyboardEntry_def)
  from invalid_description_stops_run [OF 1 2 3 4 5 6 7 8] 8 show ?thesis by simp
qed


lemma digits_chars: "set (digits n) \<subseteq> set ''0123456789''"
proof (induction n rule: digits.induct)
  case (1 n)
  have d: "''0123456789'' ! k \<in> set ''0123456789''" if "k < 10" for k
    using that by (intro nth_mem) simp
  show ?case
  proof (cases "n < 10")
    case True
    with d [of n] show ?thesis by (subst digits.simps) simp
  next
    case False
    with "1.IH" d [of "n mod 10"] show ?thesis by (subst digits.simps) simp
  qed
qed

lemma Number_toString_no_J: "CHR ''J'' \<notin> set (Number_toString n)"
  using digits_chars [of "nat n"] digits_chars [of "nat (- n)"]
  by (auto simp: Number_toString_def)

lemma str_includes_chars: "str_includes m sub \<Longrightarrow> set sub \<subseteq> set m"
  unfolding str_includes_iff by auto

lemma wrongFrames_array_message:
  "\<exists>m. wrongFrames frameCount (Some (JArray entries)) = Error m \<and> \<not> str_includes m ''JSON.parse''"
proof -
  let ?got = "if entries = [] then ''none'' else Number_toString (int (length entries))"
  let ?m = "''Storyboard generation failed: AI returned an invalid format or wrong number of frames. Expected ''
              @ Number_toString frameCount @ '', got '' @ ?got @ ''.''"
  have w: "wrongFrames frameCount (Some (JArray entries)) = Error ?m"
    by (simp add: wrongFrames_def)
  have "CHR ''J'' \<notin> set ?got" using Number_toString_no_J by simp
  then have "CHR ''J'' \<notin> set ?m" using Number_toString_no_J [of frameCount] by simp
  then have "\<not> str_includes ?m ''JSON.parse''"
    using str_includes_chars [of ?m "''JSON.parse''"] by auto
  with w show ?thesis by blast
qed

lemma readStoryboard_wrong_length:
  assumes "response_text resp = Some t" and "JSON_parse h (trim t) = Inr (JObject kvs)"
    and "map_of kvs ''storyboard'' = Some (JArray entries)"
    and "int (length entries) \<noteq> frameCount"
  shows "\<exists>m. readStoryboard h frameCount resp = Inl (Error m) \<and> \<not> str_includes m ''JSON.parse''"
  using assms wrongFrames_array_message [of frameCount entries]
  by (auto simp: readStoryboard_def)

text \<open>
  Whatever the two counts are, a storyboard array of the wrong length ends the run with the
  one message that names neither of them: the catch clause of generateStoryboard replaces
  the error that does.
\<close>

lemma wrong_length_error_is_generic:
  assumes "generateAnimationFrames h motionPrompt frameCount cb s = (r, s')"
    and "(req, Inr resp) \<in> set (newExchanges s s')" and "model req = ''gemini-2.5-pro''"
    and "response_text resp = Some t" and "JSON_parse h (trim t) = Inr (JObject kvs)"
    and "map_of kvs ''storyboard'' = Some (JArray entries)"
    and "int (length entries) \<noteq> frameCount"
  shows "r = Inl (Error ''Failed to generate animation: Failed to generate animation storyboard. The planning AI may be experiencing issues.'')"
proof -
  from storyboard_run_planner [OF assms(1)] assms(2)
  obtain reply calls where n:
    "newExchanges s s' = (storyboardRequest motionPrompt frameCount, reply) # calls"
    "\<forall>c \<in> set calls. model (fst c) = ''gemini-2.5-flash-image''"
    "\<forall>resp e. reply = Inr resp \<and> readStoryboard h frameCount resp = Inl e
       \<longrightarrow> r = Inl (animationCatch (storyboardCatch e))"
    by auto
  have "(req, Inr resp) \<notin> set calls"
    using n(2) assms(3) by auto
  with assms(2) n(1) have reply: "reply = Inr resp" by auto
  from readStoryboard_wrong_length [OF assms(4,5,6,7)] obtain m where
    m: "readStoryboard h frameCount resp = Inl (Error m)" "\<not> str_includes m ''JSON.parse''"
    by blast
  with n(3) reply have "r = Inl (animationCatch (storyboardCatch (Error m)))" by blast
  with m(2) show ?thesis by (simp add: storyboardCatch_def animationCatch_def)
qed

text \<open>
  C1, at the input where it fails.  Three frames are asked for and the planner returns a
  storyboard of two entries.  The run fails, but the message that reaches the caller names
  neither 3 nor 2; the message built at the shape check, which names both, is the one the
  catch clause of generateStoryboard discards.
\<close>

theorem wrong_storyboard_length_error:
  "fst (generateAnimationFrames (demoHost (plan [''rise'', ''fall''])) ''jump'' 3 None ready) =
     Inl (Error ''Failed to generate animation: Failed to generate animation storyboard. The planning AI may be experiencing issues.'')
   \<and> \<not> str_includes ''Failed to generate animation: Failed to generate animation storyboard. The planning AI may be experiencing issues.'' ''3''
   \<and> \<not> str_includes ''Failed to generate animation: Failed to generate animation storyboard. The planning AI may be experiencing issues.'' ''2''
   \<and> wrongFrames 3 (Some (JArray (map storyboardEntry [''rise'', ''fall'']))) =
       Error ''Storyboard generation failed: AI returned an invalid format or wrong number of frames. Expected 3, got 2.''"
  by code_simp

section \<open>The claim about generateFrame\<close>

lemma firstInlineData_first:
  "\<forall>q \<in> set pre. inlineData q = None \<Longrightarrow> inlineData p = Some b \<Longrightarrow>
   firstInlineData (pre @ p # post) = Some b"
  by (induction pre) auto

lemma firstInlineData_none:
  "\<forall>q \<in> set ps. inlineData q = None \<Longrightarrow> firstInlineData ps = None"
  by (induction ps) auto

lemma generateFrame_resolved:
  assumes "referenceParts referenceFrameB64 = Inr ps"
    and "models_generateContent h ai (frameRequest ps prompt) (world s) = (Inr resp, w)"
  shows "fst (generateFrame h ai prompt referenceFrameB64 s) = extractFrame prompt resp"
  using assms by (simp add: generateFrame_def generateContent_def)

lemma failure_message_quotes_prompt:
  \<open>str_includes (''Image generation failed for prompt: "'' @ prompt @ ''"'') prompt\<close>
  unfolding str_includes_iff by blast

text \<open>
  C7, amended.  When the call for an image resolves with a response that has a first
  candidate, generateFrame returns the first part of that candidate that holds inline data,
  as \<^verbatim>\<open>data:image/png;base64,\<close> followed by the data; and when no part of that candidate holds
  inline data it throws the error whose message quotes the prompt of the frame.
\<close>

theorem generateFrame_first_inline_image:
  assumes "referenceParts referenceFrameB64 = Inr ps"
    and "models_generateContent h ai (frameRequest ps prompt) (world s) = (Inr resp, w)"
    and "candidates resp = candidate # others"
  shows \<open>(\<forall>pre p post b.
            parts (content candidate) = pre @ p # post
            \<and> (\<forall>q \<in> set pre. inlineData q = None) \<and> inlineData p = Some b
            \<longrightarrow> fst (generateFrame h ai prompt referenceFrameB64 s)
                  = Inr (''data:image/png;base64,'' @ data b))
       \<and> ((\<forall>q \<in> set (parts (content candidate)). inlineData q = None)
            \<longrightarrow> fst (generateFrame h ai prompt referenceFrameB64 s)
                  = Inl (Error (''Image generation failed for prompt: "'' @ prompt @ ''"''))
                \<and> str_includes (''Image generation failed for prompt: "'' @ prompt @ ''"'') prompt)\<close>
proof -
  have r: "fst (generateFrame h ai prompt referenceFrameB64 s) = extractFrame prompt resp"
    using assms(1,2) by (rule generateFrame_resolved)
  show ?thesis
    unfolding r extractFrame_def assms(3)
    using failure_message_quotes_prompt [of prompt]
    by (auto simp: firstInlineData_first firstInlineData_none simp del: append.simps)
qed

theorem generateFrame_first_inline_image_witness:
  \<open>fst (generateFrame (demoHost JNull) (GoogleGenAI ''key'') ''a cat'' None ready)
     = Inr ''data:image/png;base64,F0''
   \<and> fst (generateFrame (replyHost \<lparr>candidates = [captionCandidate], response_text = None\<rparr>)
          (GoogleGenAI ''key'') ''a cat'' (Some ''data:image/png;base64,F0'') ready)
     = Inl (Error ''Image generation failed for prompt: "a cat"'')
   \<and> str_includes ''Image generation failed for prompt: "a cat"'' ''a cat''\<close>
proof -
  let ?c = "\<lparr>content = \<lparr>parts = [pngPart ''F0'']\<rparr>\<rparr>"
  let ?r = "\<lparr>candidates = [captionCandidate], response_text = None\<rparr>"
  have 1: "referenceParts None = Inr []" by simp
  have 2: "models_generateContent (demoHost JNull) (GoogleGenAI ''key'') (frameRequest [] ''a cat'') (world ready)
             = (Inr (imageReply ''F0''), Suc 0)"
    by (simp add: demoHost_def ready_def frameRequest_def digits.simps)
  have 3: "candidates (imageReply ''F0'') = ?c # []" by (simp add: imageReply_def)
  have 4: "referenceParts (Some ''data:image/png;base64,F0'') = Inr [pngPart ''F0'']"
    by code_simp
  have 5: "models_generateContent (replyHost ?r) (GoogleGenAI ''key'')
             (frameRequest [pngPart ''F0''] ''a cat'') (world ready) = (Inr ?r, Suc 0)"
    by (simp add: replyHost_def ready_def)
  have 6: "candidates ?r = captionCandidate # []" by simp
  have p: "parts (content ?c) = [] @ pngPart ''F0'' # []" by simp
  have i: "inlineData (pngPart ''F0'') = Some \<lparr>data = ''F0'', mimeType = ''image/png''\<rparr>"
    by (simp add: pngPart_def)
  have q: "\<forall>q \<in> set (parts (content captionCandidate)). inlineData q = None"
    by (simp add: captionCandidate_def)
  from generateFrame_first_inline_image [OF 1 2 3, THEN conjunct1, rule_format, of "[]" "pngPart ''F0''" "[]"]
    generateFrame_first_inline_image [OF 4 5 6, THEN conjunct2]
    p i q
  show ?thesis by simp
qed

text \<open>
  C7, as stated, fails in two ways.  Only the first candidate of a response is read: when
  the image is in a part of the second candidate, generateFrame throws although a part of
  the response holds inline data.  And for a response without candidates, where no part
  holds inline data, what is thrown is the engine's TypeError of the read of
  \<^verbatim>\<open>candidates[0].content\<close>, which says nothing of the prompt or the frame.
\<close>

theorem generateFrame_first_candidate_counterexample:
  \<open>fst (generateFrame
          (replyHost \<lparr>candidates = [captionCandidate, \<lparr>content = \<lparr>parts = [pngPart ''F0'']\<rparr>\<rparr>],
                       response_text = None\<rparr>)
          (GoogleGenAI ''key'') ''a cat'' None ready)
       = Inl (Error ''Image generation failed for prompt: "a cat"'')
   \<and> fst (generateFrame (replyHost \<lparr>candidates = [], response_text = None\<rparr>)
          (GoogleGenAI ''key'') ''a cat'' None ready)
       = Inl (Error (''Cannot read properties of undefined (reading '' @ [CHR 0x27] @ ''content'' @ [CHR 0x27] @ '')''))
   \<and> \<not> str_includes (''Cannot read properties of undefined (reading '' @ [CHR 0x27] @ ''content'' @ [CHR 0x27] @ '')'') ''a cat''\<close>
  by code_simp

section \<open>The claims about the export\<close>

lemma Promise_all_rejects:
  "f \<in> set fs \<Longrightarrow> g f = None \<Longrightarrow> Promise_all (map g fs) = None"
  by (induction fs) (auto split: option.splits)

lemma Promise_all_resolves:
  "\<forall>f \<in> set fs. g f \<noteq> None \<Longrightarrow> Promise_all (map g fs) = Some (map (\<lambda>f. the (g f)) fs)"
  by (induction fs) (auto split: option.splits)

text \<open>
  C8.  An export with the worker script ready, of frames that all load: the encoder is
  handed one frame per frame of the sequence, in the order of the sequence, each with the
  delay 1100 minus the playback speed, which is the period of the playback timer.
\<close>

theorem export_hands_frames_in_order:
  assumes "frames a = Some fs" and "workerReady a"
    and "\<forall>f \<in> set fs. Image_load b f \<noteq> None"
  shows "addFrame_calls (handleDownload b a) =
           addFrame_calls a @ map (\<lambda>f. (the (Image_load b f), 1100 - playbackSpeed a)) fs
       \<and> 1100 - playbackSpeed a = intervalDuration (playbackSpeed a)
       \<and> (2 \<le> length fs \<longrightarrow> playbackTimer fs (playbackSpeed a) = Some (1100 - playbackSpeed a))"
proof -
  have "addFrame_calls (handleDownload b a) =
           addFrame_calls a @ map (\<lambda>f. (the (Image_load b f), 1100 - playbackSpeed a)) fs"
  proof (cases "fs = []")
    case True
    with assms(1) show ?thesis by (simp add: handleDownload_def)
  next
    case False
    with assms(1,2) Promise_all_resolves [of fs "Image_load b", OF assms(3)] show ?thesis
      by (simp add: handleDownload_def Let_def comp_def split: option.splits)
  qed
  then show ?thesis by (simp add: intervalDuration_def playbackTimer_def)
qed

theorem export_hands_frames_in_order_witness:
  "addFrame_calls (handleDownload demoBrowser (demoApp [''f1'', ''f2'', ''f3''])) =
     [(''img:f1'', 600), (''img:f2'', 600), (''img:f3'', 600)]
   \<and> playbackTimer [''f1'', ''f2'', ''f3''] 500 = Some 600
   \<and> downloads (handleDownload demoBrowser (demoApp [''f1'', ''f2'', ''f3''])) =
     [(''animation.gif'', [''img:f1'', ''img:f2'', ''img:f3''])]"
proof -
  have 1: "frames (demoApp [''f1'', ''f2'', ''f3'']) = Some [''f1'', ''f2'', ''f3'']"
    by (simp add: demoApp_def)
  have 2: "workerReady (demoApp [''f1'', ''f2'', ''f3''])"
    by (simp add: demoApp_def workerReady_def)
  have 3: "\<forall>f \<in> set [''f1'', ''f2'', ''f3'']. Image_load demoBrowser f \<noteq> None"
    by (simp add: demoBrowser_def)
  have 4: "downloads (handleDownload demoBrowser (demoApp [''f1'', ''f2'', ''f3''])) =
     [(''animation.gif'', [''img:f1'', ''img:f2'', ''img:f3''])]"
    by code_simp
  from export_hands_frames_in_order [OF 1 2 3] 4 show ?thesis
    by (simp add: demoApp_def demoBrowser_def)
qed

text \<open>
  C9.  If one frame of the sequence fails to load, the export hands no frame to the
  encoder, starts no rendering and offers no download, and an error is shown.
\<close>

theorem failed_load_stops_export:
  assumes "frames a = Some fs" and "f \<in> set fs" and "Image_load b f = None"
  shows "addFrame_calls (handleDownload b a) = addFrame_calls a
       \<and> render_calls (handleDownload b a) = render_calls a
       \<and> downloads (handleDownload b a) = downloads a
       \<and> error (handleDownload b a) \<noteq> None
       \<and> (workerReady a \<longrightarrow>
            error (handleDownload b a) = Some ''Failed to create GIF: Failed to load an image frame.''
            \<and> \<not> isCreatingGif (handleDownload b a))"
  using assms(1,2) Promise_all_rejects [of f fs "Image_load b", OF assms(2,3)]
  by (auto simp: handleDownload_def Let_def)

theorem failed_load_stops_export_witness:
  "addFrame_calls (handleDownload demoBrowser (demoApp [''f1'', ''broken'', ''f3''])) = []
   \<and> render_calls (handleDownload demoBrowser (demoApp [''f1'', ''broken'', ''f3''])) = 0
   \<and> downloads (handleDownload demoBrowser (demoApp [''f1'', ''broken'', ''f3''])) = []
   \<and> error (handleDownload demoBrowser (demoApp [''f1'', ''broken'', ''f3'']))
       = Some ''Failed to create GIF: Failed to load an image frame.''"
proof -
  have 1: "frames (demoApp [''f1'', ''broken'', ''f3'']) = Some [''f1'', ''broken'', ''f3'']"
    by (simp add: demoApp_def)
  have 2: "''broken'' \<in> set [''f1'', ''broken'', ''f3'']" by simp
  have 3: "Image_load demoBrowser ''broken'' = None" by (simp add: demoBrowser_def)
  have 4: "workerReady (demoApp [''f1'', ''broken'', ''f3''])"
    by (simp add: demoApp_def workerReady_def)
  from failed_load_stops_export [OF 1 2 3] 4 show ?thesis
    by (simp add: demoApp_def)
qed

end
